theory Spec2Isabelle
  imports Main
begin


section \<open>JavaScript values used by the program\<close>

text \<open>
  A JavaScript string is a sequence of code units and \<open>.length\<close> counts them. The
  type \<open>string\<close> stands for the strings whose code units are below 256, one
  \<open>char\<close> per code unit.

  A JavaScript number is \<open>NaN\<close>, one of the two infinities, or a finite value. The
  finite values are kept exact, as a decimal \<open>m * 10 ^ e\<close>: the rounding of a literal to
  the nearest binary64 value is not part of the model (a literal beyond the range of
  binary64 stays finite, where the language gives an infinity or 0), and the two zeros are
  one value.
  Two finite numbers may be written differently and still be equal, so \<open>===\<close>,
  \<open><=\<close> and \<open>>=\<close> compare the values (\<open>num_eq\<close>, \<open>num_le\<close>).
\<close>

datatype jsnum = NaN | PosInf | NegInf | Fin int int

text \<open>\<open>string | number\<close>, the type of \<open>Validatable.value\<close>.\<close>

datatype jsval = Str string | Num jsnum

definition fin_le :: "int \<Rightarrow> int \<Rightarrow> int \<Rightarrow> int \<Rightarrow> bool" where
  "fin_le m1 e1 m2 e2 =
     (let e = min e1 e2 in m1 * 10 ^ nat (e1 - e) \<le> m2 * 10 ^ nat (e2 - e))"

definition fin_eq :: "int \<Rightarrow> int \<Rightarrow> int \<Rightarrow> int \<Rightarrow> bool" where
  "fin_eq m1 e1 m2 e2 =
     (let e = min e1 e2 in m1 * 10 ^ nat (e1 - e) = m2 * 10 ^ nat (e2 - e))"

text \<open>\<open>a <= b\<close> on numbers (\<open>a >= b\<close> is \<open>num_le b a\<close>); every comparison with
  \<open>NaN\<close> is false.\<close>

fun num_le :: "jsnum \<Rightarrow> jsnum \<Rightarrow> bool" where
  "num_le NaN _ = False"
| "num_le _ NaN = False"
| "num_le NegInf _ = True"
| "num_le _ PosInf = True"
| "num_le PosInf _ = False"
| "num_le _ NegInf = False"
| "num_le (Fin m1 e1) (Fin m2 e2) = fin_le m1 e1 m2 e2"

text \<open>\<open>a === b\<close> on numbers.\<close>

fun num_eq :: "jsnum \<Rightarrow> jsnum \<Rightarrow> bool" where
  "num_eq (Fin m1 e1) (Fin m2 e2) = fin_eq m1 e1 m2 e2"
| "num_eq PosInf PosInf = True"
| "num_eq NegInf NegInf = True"
| "num_eq _ _ = False"

abbreviation num_of_nat :: "nat \<Rightarrow> jsnum" where
  "num_of_nat n \<equiv> Fin (int n) 0"

abbreviation num_of_int :: "int \<Rightarrow> jsnum" where
  "num_of_int i \<equiv> Fin i 0"

text \<open>A number is an integer when its value has no fractional part.\<close>

fun is_integer :: "jsnum \<Rightarrow> bool" where
  "is_integer (Fin m e) = (0 \<le> e \<or> m mod 10 ^ nat (- e) = 0)"
| "is_integer _ = False"

subsection \<open>White space and \<open>String.prototype.trim\<close>\<close>

text \<open>The code units below 256 that \<open>trim\<close> and the conversion to a number strip:
  TAB, LF, VT, FF, CR, SP and NBSP.\<close>

definition isWhiteSpace :: "char \<Rightarrow> bool" where
  "isWhiteSpace c = (of_char c \<in> {9, 10, 11, 12, 13, 32, 160 :: nat})"

definition trim :: "string \<Rightarrow> string" where
  "trim s = rev (dropWhile isWhiteSpace (rev (dropWhile isWhiteSpace s)))"

subsection \<open>\<open>Number.prototype.toString\<close>\<close>

definition digitChar :: "nat \<Rightarrow> char" where
  "digitChar d = char_of (48 + d)"

fun natDigits :: "nat \<Rightarrow> string" where
  "natDigits n = (if n < 10 then [digitChar n] else natDigits (n div 10) @ [digitChar (n mod 10)])"

declare natDigits.simps [simp del]

definition stripZeros :: "string \<Rightarrow> string" where
  "stripZeros ds = rev (dropWhile (\<lambda>c. c = CHR ''0'') (rev ds))"

text \<open>
  The digits \<open>s\<close> of the value without trailing zeros, their count \<open>k\<close>, and \<open>n\<close> with
  value \<open>= 0.s * 10 ^ n\<close>; then the four layouts of the language's \<open>Number::toString\<close>.
\<close>

definition posToString :: "nat \<Rightarrow> int \<Rightarrow> string" where
  "posToString m e =
     (let ds = natDigits m;
          s = stripZeros ds;
          k = int (length s);
          n = int (length ds) + e
      in if k \<le> n \<and> n \<le> 21 then s @ replicate (nat (n - k)) (CHR ''0'')
         else if 0 < n \<and> n \<le> 21 then take (nat n) s @ ''.'' @ drop (nat n) s
         else if - 6 < n \<and> n \<le> 0 then ''0.'' @ replicate (nat (- n)) (CHR ''0'') @ s
         else
           let ex = n - 1;
               es = (if ex < 0 then ''-'' else ''+'') @ natDigits (nat \<bar>ex\<bar>)
           in if k = 1 then s @ ''e'' @ es
              else take 1 s @ ''.'' @ drop 1 s @ ''e'' @ es)"

fun numToString :: "jsnum \<Rightarrow> string" where
  "numToString NaN = ''NaN''"
| "numToString PosInf = ''Infinity''"
| "numToString NegInf = ''-Infinity''"
| "numToString (Fin m e) =
     (if m = 0 then ''0''
      else if m < 0 then ''-'' @ posToString (nat (- m)) e
      else posToString (nat m) e)"

text \<open>\<open>value.toString()\<close> on a \<open>string | number\<close>.\<close>

fun toString :: "jsval \<Rightarrow> string" where
  "toString (Str s) = s"
| "toString (Num n) = numToString n"

subsection \<open>Unary \<open>+\<close> on a string\<close>

definition isDigit :: "char \<Rightarrow> bool" where
  "isDigit c = (48 \<le> (of_char c :: nat) \<and> (of_char c :: nat) \<le> 57)"

definition digitsVal :: "string \<Rightarrow> int" where
  "digitsVal ds = foldl (\<lambda>a c. 10 * a + (int (of_char c) - 48)) 0 ds"

definition hexDigitVal :: "char \<Rightarrow> nat option" where
  "hexDigitVal c =
     (let v = (of_char c :: nat)
      in if 48 \<le> v \<and> v \<le> 57 then Some (v - 48)
         else if 65 \<le> v \<and> v \<le> 70 then Some (v - 55)
         else if 97 \<le> v \<and> v \<le> 102 then Some (v - 87)
         else None)"

text \<open>The digits of a \<open>0x\<close>, \<open>0o\<close> or \<open>0b\<close> literal in the given radix.\<close>

definition radixVal :: "nat \<Rightarrow> string \<Rightarrow> jsnum" where
  "radixVal r ds =
     (if ds \<noteq> [] \<and> (\<forall>c \<in> set ds. case hexDigitVal c of None \<Rightarrow> False | Some v \<Rightarrow> v < r)
      then num_of_nat (foldl (\<lambda>a c. r * a + the (hexDigitVal c)) 0 ds)
      else NaN)"

text \<open>The exponent part: nothing, or \<open>e\<close>/\<open>E\<close>, an optional sign and digits.\<close>

definition parseExponent :: "string \<Rightarrow> int option" where
  "parseExponent s =
     (case s of
        [] \<Rightarrow> Some 0
      | c # t \<Rightarrow>
          if c = CHR ''e'' \<or> c = CHR ''E'' then
            (let (sg, ds) = (case t of
                               [] \<Rightarrow> (1, [])
                             | d # u \<Rightarrow> if d = CHR ''+'' then (1, u)
                                        else if d = CHR ''-'' then (- 1, u)
                                        else (1, t))
             in if ds \<noteq> [] \<and> list_all isDigit ds then Some (sg * digitsVal ds) else None)
          else None)"

text \<open>\<open>Infinity\<close>, or digits with an optional fraction and exponent; at least one digit
  before or after the point.\<close>

definition parseUnsignedDecimal :: "string \<Rightarrow> jsnum" where
  "parseUnsignedDecimal s =
     (if s = ''Infinity'' then PosInf
      else
        let ip = takeWhile isDigit s;
            r1 = dropWhile isDigit s;
            (fp, r2) = (case r1 of
                          [] \<Rightarrow> ([], r1)
                        | c # t \<Rightarrow> if c = CHR ''.'' then (takeWhile isDigit t, dropWhile isDigit t)
                                   else ([], r1))
        in if ip = [] \<and> fp = [] then NaN
           else (case parseExponent r2 of
                   None \<Rightarrow> NaN
                 | Some ex \<Rightarrow> Fin (digitsVal (ip @ fp)) (ex - int (length fp))))"

fun negate :: "jsnum \<Rightarrow> jsnum" where
  "negate NaN = NaN"
| "negate PosInf = NegInf"
| "negate NegInf = PosInf"
| "negate (Fin m e) = Fin (- m) e"

text \<open>\<open>+s\<close>: white space is trimmed, the empty string is 0, a numeric literal is its
  value and anything else is \<open>NaN\<close>.\<close>

definition toNumber :: "string \<Rightarrow> jsnum" where
  "toNumber str =
     (let s = trim str
      in case s of
           [] \<Rightarrow> num_of_int 0
         | c # t \<Rightarrow>
             if c = CHR ''+'' then parseUnsignedDecimal t
             else if c = CHR ''-'' then negate (parseUnsignedDecimal t)
             else if c = CHR ''0'' \<and> t \<noteq> [] \<and> hd t \<in> set ''xX'' then radixVal 16 (tl t)
             else if c = CHR ''0'' \<and> t \<noteq> [] \<and> hd t \<in> set ''oO'' then radixVal 8 (tl t)
             else if c = CHR ''0'' \<and> t \<noteq> [] \<and> hd t \<in> set ''bB'' then radixVal 2 (tl t)
             else parseUnsignedDecimal s)"

section \<open>Validation of form input\<close>

text \<open>The interface \<open>Validatable\<close>: a value and five optional constraints
  (\<open>None\<close> is a constraint left out, that is \<open>undefined\<close>).\<close>

record Validatable =
  value_v :: jsval
  required :: "bool option"
  minLength :: "jsnum option"
  maxLength :: "jsnum option"
  min_v :: "jsnum option"
  max_v :: "jsnum option"

text \<open>\<open>validate\<close> threads the flag \<open>isValid\<close> through five guarded assignments.\<close>

definition validate :: "Validatable \<Rightarrow> bool" where
  "validate validatableInput =
     (let isValid = True;
          isValid = (if required validatableInput = Some True
                     then isValid \<and> length (trim (toString (value_v validatableInput))) \<noteq> 0
                     else isValid);
          isValid = (case (minLength validatableInput, value_v validatableInput) of
                       (Some bound, Str s) \<Rightarrow> isValid \<and> num_le bound (num_of_nat (length s))
                     | _ \<Rightarrow> isValid);
          isValid = (case (maxLength validatableInput, value_v validatableInput) of
                       (Some bound, Str s) \<Rightarrow> isValid \<and> num_le (num_of_nat (length s)) bound
                     | _ \<Rightarrow> isValid);
          isValid = (case (min_v validatableInput, value_v validatableInput) of
                       (Some bound, Num n) \<Rightarrow> isValid \<and> num_le bound n
                     | _ \<Rightarrow> isValid);
          isValid = (case (max_v validatableInput, value_v validatableInput) of
                       (Some bound, Num n) \<Rightarrow> isValid \<and> num_le n bound
                     | _ \<Rightarrow> isValid)
      in isValid)"

subsection \<open>The five rules as the specification words them\<close>

text \<open>Each rule on its own: it passes when the constraint is not supplied or does not
  apply to the runtime type of the value, and otherwise when the value meets it.\<close>

definition rule_required :: "Validatable \<Rightarrow> bool" where
  "rule_required v = (if required v = Some True then trim (toString (value_v v)) \<noteq> [] else True)"

definition rule_minLength :: "Validatable \<Rightarrow> bool" where
  "rule_minLength v =
     (case minLength v of
        None \<Rightarrow> True
      | Some bound \<Rightarrow> (case value_v v of Str s \<Rightarrow> num_le bound (num_of_nat (length s)) | Num _ \<Rightarrow> True))"

definition rule_maxLength :: "Validatable \<Rightarrow> bool" where
  "rule_maxLength v =
     (case maxLength v of
        None \<Rightarrow> True
      | Some bound \<Rightarrow> (case value_v v of Str s \<Rightarrow> num_le (num_of_nat (length s)) bound | Num _ \<Rightarrow> True))"

definition rule_min :: "Validatable \<Rightarrow> bool" where
  "rule_min v =
     (case min_v v of
        None \<Rightarrow> True
      | Some bound \<Rightarrow> (case value_v v of Num n \<Rightarrow> num_le bound n | Str _ \<Rightarrow> True))"

definition rule_max :: "Validatable \<Rightarrow> bool" where
  "rule_max v =
     (case max_v v of
        None \<Rightarrow> True
      | Some bound \<Rightarrow> (case value_v v of Num n \<Rightarrow> num_le n bound | Str _ \<Rightarrow> True))"

text \<open>An object literal that sets only \<open>value\<close>.\<close>

definition only_value :: "jsval \<Rightarrow> Validatable" where
  "only_value x =
     \<lparr>value_v = x, required = None, minLength = None, maxLength = None, min_v = None, max_v = None\<rparr>"

section \<open>Projects and the state broadcaster\<close>

datatype ProjectStatus = Active | Finished

text \<open>The class \<open>Project\<close>. No code of the program assigns to a field of a project after its
  construction, so an array of projects is a list of project values. (A copy of an array
  is shallow: it holds the same project objects. What a listener could do to a project
  object is outside this model.)\<close>

record Project =
  id_p :: string
  title :: string
  description :: string
  people :: jsnum
  status :: ProjectStatus

text \<open>
  Arrays of projects are mutable and are passed around by reference, so they live in a
  store: a reference is an index into \<open>arrays\<close>, and a new array is allocated at the
  end of the store. \<open>user\<close> is the state that the listeners own (the views and what
  they render).
\<close>

type_synonym ref = nat

record 'u world =
  arrays :: "Project list list"
  user :: 'u

text \<open>\<open>type Listener<T> = (items: T[]) => void\<close>: a listener is handed a reference to an
  array and acts on the world. A listener has no access to the broadcaster object itself.\<close>

type_synonym 'u Listener = "ref \<Rightarrow> 'u world \<Rightarrow> 'u world"

text \<open>The fields of \<open>State<Project>\<close> and \<open>ProjectState\<close>.\<close>

record 'u ProjectState =
  listeners :: "'u Listener list"
  projects :: ref

definition addListener :: "'u Listener \<Rightarrow> 'u ProjectState \<Rightarrow> 'u ProjectState" where
  "addListener listenerFn this = this\<lparr>listeners := listeners this @ [listenerFn]\<rparr>"

text \<open>\<open>arr.push(x)\<close> mutates the array in place.\<close>

definition push :: "ref \<Rightarrow> Project \<Rightarrow> 'u world \<Rightarrow> 'u world" where
  "push a x w = w\<lparr>arrays := (arrays w)[a := arrays w ! a @ [x]]\<rparr>"

text \<open>\<open>[...arr]\<close> (and \<open>arr.slice()\<close>) allocates a new array with the same elements.\<close>

definition spread :: "ref \<Rightarrow> 'u world \<Rightarrow> ref \<times> 'u world" where
  "spread a w = (length (arrays w), w\<lparr>arrays := arrays w @ [arrays w ! a]\<rparr>)"

text \<open>The loop \<open>for (const listenerFn of this.listeners) listenerFn([...this.projects])\<close>.\<close>

fun notify :: "'u Listener list \<Rightarrow> ref \<Rightarrow> 'u world \<Rightarrow> 'u world" where
  "notify [] p w = w"
| "notify (listenerFn # rest) p w =
     (let (copy, w1) = spread p w in notify rest p (listenerFn copy w1))"

text \<open>\<open>new Project(Math.random().toString(), title, description, numOfPeople,
  ProjectStatus.Active)\<close>; \<open>rnd\<close> is the number that \<open>Math.random()\<close> returns.\<close>

definition newProject :: "jsnum \<Rightarrow> string \<Rightarrow> string \<Rightarrow> jsnum \<Rightarrow> Project" where
  "newProject rnd t d numOfPeople =
     \<lparr>id_p = numToString rnd, title = t, description = d, people = numOfPeople, status = Active\<rparr>"

definition addProject ::
  "'u ProjectState \<Rightarrow> jsnum \<Rightarrow> string \<Rightarrow> string \<Rightarrow> jsnum \<Rightarrow> 'u world \<Rightarrow> 'u world" where
  "addProject this rnd t d numOfPeople w =
     notify (listeners this) (projects this)
       (push (projects this) (newProject rnd t d numOfPeople) w)"

text \<open>A sequence of calls, each with the value of \<open>Math.random()\<close> and its three
  arguments.\<close>

fun addProjects ::
  "'u ProjectState \<Rightarrow> (jsnum \<times> string \<times> string \<times> jsnum) list \<Rightarrow> 'u world \<Rightarrow> 'u world" where
  "addProjects this [] w = w"
| "addProjects this ((rnd, t, d, n) # calls) w = addProjects this calls (addProject this rnd t d n w)"

text \<open>The list that the broadcaster stores.\<close>

definition stored :: "'u ProjectState \<Rightarrow> 'u world \<Rightarrow> Project list" where
  "stored this w = arrays w ! projects this"

subsection \<open>The singleton\<close>

text \<open>
  The class \<open>ProjectState\<close>: its static field \<open>instance\<close> (\<open>None\<close> is \<open>undefined\<close>) and
  the objects that its constructor has made so far; a reference to a \<open>ProjectState\<close> is an
  index into \<open>constructed\<close>. The constructor is private, so \<open>getInstance\<close> is its only
  caller.
\<close>

record 'u ProjectState_class =
  instance_s :: "ref option"
  constructed :: "'u ProjectState list"

text \<open>The constructor: \<open>listeners = []\<close> and \<open>projects = []\<close>, a new empty array.\<close>

definition new_ProjectState :: "'u world \<Rightarrow> 'u ProjectState \<times> 'u world" where
  "new_ProjectState w =
     (\<lparr>listeners = [], projects = length (arrays w)\<rparr>, w\<lparr>arrays := arrays w @ [[]]\<rparr>)"

definition getInstance ::
  "'u ProjectState_class \<Rightarrow> 'u world \<Rightarrow> ref \<times> 'u ProjectState_class \<times> 'u world" where
  "getInstance cls w =
     (case instance_s cls of
        Some r \<Rightarrow> (r, cls, w)
      | None \<Rightarrow>
          let (obj, w1) = new_ProjectState w;
              r = length (constructed cls);
              cls1 = cls\<lparr>constructed := constructed cls @ [obj], instance_s := Some r\<rparr>
          in (r, cls1, w1))"

text \<open>The class before its first use.\<close>

definition class0 :: "'u ProjectState_class" where
  "class0 = \<lparr>instance_s = None, constructed = []\<rparr>"

text \<open>\<open>n\<close> accesses one after the other: the references returned and the final state.\<close>

fun getInstances ::
  "nat \<Rightarrow> 'u ProjectState_class \<Rightarrow> 'u world \<Rightarrow> ref list \<times> 'u ProjectState_class \<times> 'u world" where
  "getInstances 0 cls w = ([], cls, w)"
| "getInstances (Suc n) cls w =
     (let (r, cls1, w1) = getInstance cls w;
          (rs, cls2, w2) = getInstances n cls1 w1
      in (r # rs, cls2, w2))"

subsection \<open>What a listener can reach\<close>

text \<open>
  The broadcaster keeps its array private: a listener reaches it only if it is handed a
  reference to it. \<open>cannot_reach p f\<close> says so for the array at \<open>p\<close>: called with any other
  reference, \<open>f\<close> leaves the array at \<open>p\<close> as it is (it may change every other array,
  the one it is handed included, and allocate new ones).
\<close>

definition cannot_reach :: "ref \<Rightarrow> 'u Listener \<Rightarrow> bool" where
  "cannot_reach p f =
     (\<forall>c w. c \<noteq> p \<and> p < length (arrays w) \<longrightarrow>
        length (arrays w) \<le> length (arrays (f c w)) \<and> arrays (f c w) ! p = arrays w ! p)"

text \<open>The notification as the specification words it: every listener, in order, is
  handed a new array that holds the list \<open>P\<close>.\<close>

fun deliver :: "Project list \<Rightarrow> 'u Listener list \<Rightarrow> 'u world \<Rightarrow> 'u world" where
  "deliver P [] w = w"
| "deliver P (f # fs) w = deliver P fs (f (length (arrays w)) (w\<lparr>arrays := arrays w @ [P]\<rparr>))"

text \<open>Two listeners to try the broadcaster with: both record the list they receive, and
  the first then empties the array it was handed.\<close>

definition logging_listener :: "(Project list list) Listener" where
  "logging_listener items w = w\<lparr>user := user w @ [arrays w ! items]\<rparr>"

definition clearing_listener :: "(Project list list) Listener" where
  "clearing_listener items w =
     w\<lparr>arrays := (arrays w)[items := []], user := user w @ [arrays w ! items]\<rparr>"

text \<open>A broadcaster with these two listeners, in this order, over an empty list.\<close>

definition probe_state :: "(Project list list) ProjectState" where
  "probe_state = \<lparr>listeners = [clearing_listener, logging_listener], projects = 0\<rparr>"

definition probe_world :: "(Project list list) world" where
  "probe_world = \<lparr>arrays = [[]], user = []\<rparr>"


section \<open>The views\<close>

subsection \<open>The item view\<close>

text \<open>What the item view shows of the \<open>li\<close> element it renders: the element's id and
  the text of its \<open>h2\<close>, \<open>h3\<close> and \<open>p\<close> children.\<close>

record li_el =
  el_id :: string
  h2_textContent :: string
  h3_textContent :: string
  p_textContent :: string

text \<open>Modelled from the spec: the HTML template \<open>single-project\<close> is not among the
  sources; it holds one \<open>li\<close> with an \<open>h2\<close>, an \<open>h3\<close> and a \<open>p\<close>, taken to be empty
  and without an id.\<close>

definition single_project_template :: li_el where
  "single_project_template =
     \<lparr>el_id = '''', h2_textContent = '''', h3_textContent = '''', p_textContent = ''''\<rparr>"

text \<open>The getter \<open>persons\<close> of \<open>ProjectItem\<close>.\<close>

definition persons :: "Project \<Rightarrow> string" where
  "persons project =
     (if num_eq (people project) (num_of_int 1) then ''1 person''
      else numToString (people project) @ '' persons'')"

text \<open>The constructor of \<open>Component\<close> up to \<open>attach\<close>: the template is cloned, and the
  clone gets the new id unless that is the empty string.\<close>

definition importNode :: "string \<Rightarrow> li_el" where
  "importNode newElementId =
     (let renderedEl = single_project_template
      in if newElementId \<noteq> '''' then renderedEl\<lparr>el_id := newElementId\<rparr> else renderedEl)"

text \<open>\<open>attach\<close>: \<open>afterbegin\<close> puts the element first among the children of the host,
  \<open>beforeend\<close> last.\<close>

definition attach :: "bool \<Rightarrow> 'a \<Rightarrow> 'a list \<Rightarrow> 'a list" where
  "attach insertAtBeginning renderedEl hostEl =
     (if insertAtBeginning then renderedEl # hostEl else hostEl @ [renderedEl])"

definition renderContent :: "Project \<Rightarrow> li_el \<Rightarrow> li_el" where
  "renderContent project renderedEl =
     renderedEl\<lparr>h2_textContent := title project,
                h3_textContent := persons project @ '' assigned'',
                p_textContent := description project\<rparr>"

text \<open>\<open>new ProjectItem(hostId, project)\<close> on the children of the host. The element is
  attached by the base constructor and filled by \<open>renderContent\<close> afterwards; it is one
  node, so the children of the host end with the filled element.\<close>

definition new_ProjectItem :: "li_el list \<Rightarrow> Project \<Rightarrow> li_el list" where
  "new_ProjectItem hostEl project =
     attach False (renderContent project (importNode (id_p project))) hostEl"

subsection \<open>The list view\<close>

datatype list_type = active | finished

text \<open>A \<open>ProjectList\<close>: its category, its field \<open>assignedProjects\<close> and the children of
  the \<open>ul\<close> element of its section, which is the element with the id
  \<open>${type}-projects-list\<close>.\<close>

record ProjectList =
  type_l :: list_type
  assignedProjects :: "Project list"
  ul :: "li_el list"

text \<open>\<open>renderProjects\<close>: \<open>listEl.innerHTML = ''\<close>, then one \<open>ProjectItem\<close> for each
  assigned project.\<close>

definition renderProjects :: "ProjectList \<Rightarrow> ProjectList" where
  "renderProjects this =
     (let listEl = [] in this\<lparr>ul := foldl new_ProjectItem listEl (assignedProjects this)\<rparr>)"

text \<open>The callback of \<open>projects.filter\<close> in \<open>configure\<close>.\<close>

definition relevant :: "list_type \<Rightarrow> Project \<Rightarrow> bool" where
  "relevant ty prj = (if ty = active then status prj = Active else status prj = Finished)"

text \<open>The body of the listener that \<open>configure\<close> registers, for the list view \<open>this\<close>
  and the array it is called with.\<close>

definition on_projects :: "Project list \<Rightarrow> ProjectList \<Rightarrow> ProjectList" where
  "on_projects items this =
     (let relevantProjects = filter (relevant (type_l this)) items
      in renderProjects (this\<lparr>assignedProjects := relevantProjects\<rparr>))"

subsection \<open>The input form\<close>

text \<open>The values of the three input elements.\<close>

record ProjectInput =
  titleInputEl :: string
  descriptionInputEl :: string
  peopleInputEl :: string

text \<open>The state the views own: the form, the list views (a reference to a list view is
  an index into \<open>prjLists\<close>) and the alerts shown so far.\<close>

record views =
  prjInput :: ProjectInput
  prjLists :: "ProjectList list"
  alerts :: "string list"

text \<open>The listener of the list view \<open>this\<close>: a closure over \<open>this\<close>.\<close>

definition ProjectList_listener :: "nat \<Rightarrow> views Listener" where
  "ProjectList_listener this items w =
     w\<lparr>user := (user w)\<lparr>prjLists :=
        (prjLists (user w))[this := on_projects (arrays w ! items) (prjLists (user w) ! this)]\<rparr>\<rparr>"

definition titleValidatable :: "string \<Rightarrow> Validatable" where
  "titleValidatable enteredTitle = (only_value (Str enteredTitle))\<lparr>required := Some True\<rparr>"

definition descriptionValidatable :: "string \<Rightarrow> Validatable" where
  "descriptionValidatable enteredDescription =
     (only_value (Str enteredDescription))\<lparr>required := Some True, minLength := Some (num_of_int 5)\<rparr>"

definition peopleValidatable :: "string \<Rightarrow> Validatable" where
  "peopleValidatable enteredPeople =
     (only_value (Num (toNumber enteredPeople)))
       \<lparr>required := Some True, min_v := Some (num_of_int 1), max_v := Some (num_of_int 5)\<rparr>"

text \<open>\<open>gatherUserInput\<close>: the tuple, or nothing after an alert.\<close>

definition gatherUserInput :: "views \<Rightarrow> (string \<times> string \<times> jsnum) option \<times> views" where
  "gatherUserInput v =
     (let enteredTitle = titleInputEl (prjInput v);
          enteredDescription = descriptionInputEl (prjInput v);
          enteredPeople = peopleInputEl (prjInput v)
      in if \<not> validate (titleValidatable enteredTitle) \<or>
            \<not> validate (descriptionValidatable enteredDescription) \<or>
            \<not> validate (peopleValidatable enteredPeople)
         then (None, v\<lparr>alerts := alerts v @ [''Invalid input, please try again'']\<rparr>)
         else (Some (enteredTitle, enteredDescription, toNumber enteredPeople), v))"

definition clearInputs :: "views \<Rightarrow> views" where
  "clearInputs v =
     v\<lparr>prjInput := \<lparr>titleInputEl = '''', descriptionInputEl = '''', peopleInputEl = ''''\<rparr>\<rparr>"

subsection \<open>The program\<close>

text \<open>The state of the page: the class \<open>ProjectState\<close>, the global constant
  \<open>projectState\<close> and the world of arrays and views.\<close>

record app =
  the_class :: "views ProjectState_class"
  projectState :: ref
  the_world :: "views world"

definition projectState_obj :: "app \<Rightarrow> views ProjectState" where
  "projectState_obj a = constructed (the_class a) ! projectState a"

text \<open>\<open>submitHandler\<close>; \<open>rnd\<close> is what \<open>Math.random()\<close> returns if it is called.\<close>

definition submitHandler :: "jsnum \<Rightarrow> app \<Rightarrow> app" where
  "submitHandler rnd a =
     (let (userInput, v1) = gatherUserInput (user (the_world a));
          a1 = a\<lparr>the_world := (the_world a)\<lparr>user := v1\<rparr>\<rparr>
      in case userInput of
           Some (t, desc, n) \<Rightarrow>
             (let w2 = addProject (projectState_obj a1) rnd t desc n (the_world a1)
              in a1\<lparr>the_world := w2\<lparr>user := clearInputs (user w2)\<rparr>\<rparr>)
         | None \<Rightarrow> a1)"

text \<open>\<open>new ProjectList(type)\<close>: the new object has no assigned projects, and
  \<open>configure\<close> registers its listener with the broadcaster.\<close>

definition new_ProjectList :: "list_type \<Rightarrow> app \<Rightarrow> app" where
  "new_ProjectList ty a =
     (let v = user (the_world a);
          this = length (prjLists v);
          obj = \<lparr>type_l = ty, assignedProjects = [], ul = []\<rparr>;
          a1 = a\<lparr>the_world := (the_world a)\<lparr>user := v\<lparr>prjLists := prjLists v @ [obj]\<rparr>\<rparr>\<rparr>;
          c = the_class a1
      in a1\<lparr>the_class := c\<lparr>constructed :=
           (constructed c)[projectState a1 :=
              addListener (ProjectList_listener this) (constructed c ! projectState a1)]\<rparr>\<rparr>)"

text \<open>Modelled from the spec: the HTML template \<open>project-input\<close> is not among the
  sources; its three input elements are taken to start empty.\<close>

definition views0 :: views where
  "views0 =
     \<lparr>prjInput = \<lparr>titleInputEl = '''', descriptionInputEl = '''', peopleInputEl = ''''\<rparr>,
      prjLists = [], alerts = []\<rparr>"

text \<open>The top level of the script: \<open>projectState = ProjectState.getInstance()\<close>, the form,
  and the two list views.\<close>

definition init :: app where
  "init =
     (let (r, c, w) = getInstance class0 \<lparr>arrays = [], user = views0\<rparr>;
          a = \<lparr>the_class = c, projectState = r, the_world = w\<rparr>
      in new_ProjectList finished (new_ProjectList active a))"

text \<open>What happens next: the user edits a field or submits the form, or some code calls
  \<open>projectState.addProject\<close> itself.\<close>

datatype event =
    Type_title string
  | Type_description string
  | Type_people string
  | Submit jsnum
  | Call_addProject jsnum string string jsnum

definition set_input :: "(ProjectInput \<Rightarrow> ProjectInput) \<Rightarrow> app \<Rightarrow> app" where
  "set_input f a =
     a\<lparr>the_world := (the_world a)\<lparr>user := (user (the_world a))\<lparr>prjInput := f (prjInput (user (the_world a)))\<rparr>\<rparr>\<rparr>"

fun step :: "app \<Rightarrow> event \<Rightarrow> app" where
  "step a (Type_title s) = set_input (\<lambda>i. i\<lparr>titleInputEl := s\<rparr>) a"
| "step a (Type_description s) = set_input (\<lambda>i. i\<lparr>descriptionInputEl := s\<rparr>) a"
| "step a (Type_people s) = set_input (\<lambda>i. i\<lparr>peopleInputEl := s\<rparr>) a"
| "step a (Submit rnd) = submitHandler rnd a"
| "step a (Call_addProject rnd t d n) =
     a\<lparr>the_world := addProject (projectState_obj a) rnd t d n (the_world a)\<rparr>"

definition run :: "event list \<Rightarrow> app" where
  "run evs = foldl step init evs"

fun form_event :: "event \<Rightarrow> bool" where
  "form_event (Call_addProject _ _ _ _) = False"
| "form_event _ = True"

text \<open>The list the broadcaster stores, and the two list views.\<close>

definition stored_projects :: "app \<Rightarrow> Project list" where
  "stored_projects a = stored (projectState_obj a) (the_world a)"

definition activePrjList :: "app \<Rightarrow> ProjectList" where
  "activePrjList a = prjLists (user (the_world a)) ! 0"

definition finishedPrjList :: "app \<Rightarrow> ProjectList" where
  "finishedPrjList a = prjLists (user (the_world a)) ! 1"


section \<open>What the views should show, and the states the program reaches\<close>

text \<open>The status a list view is for.\<close>

fun status_of :: "list_type \<Rightarrow> ProjectStatus" where
  "status_of active = Active"
| "status_of finished = Finished"

text \<open>The element an item view renders for a project.\<close>

definition item_view :: "Project \<Rightarrow> li_el" where
  "item_view project = renderContent project (importNode (id_p project))"

text \<open>A list view of category \<open>ty\<close> that shows the list \<open>items\<close>: it holds the projects of
  its status, and its \<open>ul\<close> holds one element for each of them, in the same order.\<close>

definition shown :: "list_type \<Rightarrow> Project list \<Rightarrow> ProjectList" where
  "shown ty items =
     \<lparr>type_l = ty,
      assignedProjects = filter (\<lambda>prj. status prj = status_of ty) items,
      ul = map item_view (filter (\<lambda>prj. status prj = status_of ty) items)\<rparr>"

text \<open>All three rule sets of the form pass on the values entered.\<close>

definition inputs_valid :: "app \<Rightarrow> bool" where
  "inputs_valid a =
     (validate (titleValidatable (titleInputEl (prjInput (user (the_world a))))) \<and>
      validate (descriptionValidatable (descriptionInputEl (prjInput (user (the_world a))))) \<and>
      validate (peopleValidatable (peopleInputEl (prjInput (user (the_world a))))))"

text \<open>What holds of every state the program reaches: one \<open>ProjectState\<close>, with the
  listeners of the two list views in the order of their construction, and both views
  showing the stored list.\<close>

definition app_inv :: "app \<Rightarrow> bool" where
  "app_inv a =
     (the_class a =
        \<lparr>instance_s = Some 0,
         constructed = [\<lparr>listeners = [ProjectList_listener 0, ProjectList_listener 1], projects = 0\<rparr>]\<rparr>
      \<and> projectState a = 0
      \<and> arrays (the_world a) \<noteq> []
      \<and> prjLists (user (the_world a)) =
          [shown active (stored_projects a), shown finished (stored_projects a)])"

text \<open>The page after the user has typed three values into the form of the page as
  loaded.\<close>

definition typed :: "string \<Rightarrow> string \<Rightarrow> string \<Rightarrow> app" where
  "typed t d p = run [Type_title t, Type_description d, Type_people p]"

section \<open>The list view of the earlier version\<close>

text \<open>
  \<open>src/app.ts\<close> holds an earlier version of the program. Its broadcaster, validation and
  form are the ones above (\<open>slice()\<close> in place of the spread). Its list view differs: the
  listener stores the array it receives as it is, and \<open>renderProjects\<close> appends one
  \<open>li\<close> with the title as its text for each assigned project, to whatever the \<open>ul\<close>
  already holds.
\<close>

record ProjectList_app =
  type_app :: list_type
  assignedProjects_app :: "Project list"
  ul_app :: "string list"

definition renderProjects_app :: "ProjectList_app \<Rightarrow> ProjectList_app" where
  "renderProjects_app this =
     this\<lparr>ul_app := foldl (\<lambda>listEl prjItem. listEl @ [title prjItem]) (ul_app this)
                       (assignedProjects_app this)\<rparr>"

definition on_projects_app :: "Project list \<Rightarrow> ProjectList_app \<Rightarrow> ProjectList_app" where
  "on_projects_app items this = renderProjects_app (this\<lparr>assignedProjects_app := items\<rparr>)"

definition ProjectList_app_listener :: "nat \<Rightarrow> (ProjectList_app list) Listener" where
  "ProjectList_app_listener this items w =
     w\<lparr>user := (user w)[this := on_projects_app (arrays w ! items) (user w ! this)]\<rparr>"

text \<open>The broadcaster and the world of that version after its top level has run: the
  two list views, \<open>active\<close> first, with nothing assigned and nothing rendered.\<close>

definition projectState_app :: "(ProjectList_app list) ProjectState" where
  "projectState_app =
     \<lparr>listeners = [ProjectList_app_listener 0, ProjectList_app_listener 1], projects = 0\<rparr>"

definition world_app :: "(ProjectList_app list) world" where
  "world_app =
     \<lparr>arrays = [[]],
      user = [\<lparr>type_app = active, assignedProjects_app = [], ul_app = []\<rparr>,
              \<lparr>type_app = finished, assignedProjects_app = [], ul_app = []\<rparr>]\<rparr>"

section \<open>Validation: theorems\<close>

lemma trim_literals:
  "trim '''' = ''''" "trim ''abc'' = ''abc''" "trim ''abcde'' = ''abcde''"
  by (simp_all add: trim_def isWhiteSpace_def)

lemma validate_rules:
  "validate v = (rule_required v \<and> rule_minLength v \<and> rule_maxLength v \<and> rule_min v \<and> rule_max v)"
  unfolding validate_def rule_required_def rule_minLength_def rule_maxLength_def
    rule_min_def rule_max_def Let_def
  by (cases "value_v v"; cases "minLength v"; cases "maxLength v"; cases "min_v v";
      cases "max_v v") auto

lemma validate_examples:
  "validate ((only_value (Str ''''))\<lparr>required := Some True\<rparr>) = False"
  "validate ((only_value (Str ''abc''))\<lparr>required := Some True, minLength := Some (num_of_int 5)\<rparr>) = False"
  "validate ((only_value (Str ''abcde''))\<lparr>required := Some True, minLength := Some (num_of_int 5)\<rparr>) = True"
  "validate ((only_value (Num (num_of_int 3)))\<lparr>min_v := Some (num_of_int 1), max_v := Some (num_of_int 5)\<rparr>) = True"
  "validate ((only_value (Num (num_of_int 6)))\<lparr>min_v := Some (num_of_int 1), max_v := Some (num_of_int 5)\<rparr>) = False"
  by (simp_all add: validate_def only_value_def trim_literals fin_le_def)

text \<open>
  C3. \<open>validate\<close> is the conjunction of the five rules, each of which passes when its
  constraint is left out or does not apply to the type of the value; it returns a boolean
  for every input. The five examples of the specification: the empty string with
  \<open>required\<close> is invalid, \<open>abc\<close> with \<open>required\<close> and \<open>minLength: 5\<close> is invalid,
  \<open>abcde\<close> with the same constraints is valid, 3 with \<open>min: 1, max: 5\<close> is valid and 6
  is invalid.
\<close>

theorem validate_is_conjunction_of_rules:
  "validate v = (rule_required v \<and> rule_minLength v \<and> rule_maxLength v \<and> rule_min v \<and> rule_max v)
   \<and> validate ((only_value (Str ''''))\<lparr>required := Some True\<rparr>) = False
   \<and> validate ((only_value (Str ''abc''))\<lparr>required := Some True, minLength := Some (num_of_int 5)\<rparr>) = False
   \<and> validate ((only_value (Str ''abcde''))\<lparr>required := Some True, minLength := Some (num_of_int 5)\<rparr>) = True
   \<and> validate ((only_value (Num (num_of_int 3)))\<lparr>min_v := Some (num_of_int 1), max_v := Some (num_of_int 5)\<rparr>) = True
   \<and> validate ((only_value (Num (num_of_int 6)))\<lparr>min_v := Some (num_of_int 1), max_v := Some (num_of_int 5)\<rparr>) = False"
  using validate_rules [of v] validate_examples by blast

section \<open>The broadcaster: theorems\<close>

lemma spread_fresh:
  "p < length (arrays w) \<Longrightarrow> spread p w = (c, w1) \<Longrightarrow>
     c \<noteq> p \<and> c = length (arrays w) \<and> arrays w1 ! c = arrays w ! p \<and> arrays w1 ! p = arrays w ! p
     \<and> user w1 = user w \<and> length (arrays w1) = Suc (length (arrays w))"
  by (auto simp: spread_def nth_append)

lemma notify_deliver:
  "p < length (arrays w) \<Longrightarrow> \<forall>f \<in> set ls. cannot_reach p f \<Longrightarrow>
     notify ls p w = deliver (arrays w ! p) ls w
     \<and> arrays (notify ls p w) ! p = arrays w ! p
     \<and> length (arrays w) \<le> length (arrays (notify ls p w))"
proof (induction ls arbitrary: w)
  case Nil
  then show ?case by simp
next
  case (Cons f fs)
  let ?c = "length (arrays w)"
  let ?w1 = "w\<lparr>arrays := arrays w @ [arrays w ! p]\<rparr>"
  let ?w2 = "f ?c ?w1"
  have r: "cannot_reach p f" using Cons.prems by simp
  have "?c \<noteq> p" "p < length (arrays ?w1)" using Cons.prems by simp_all
  with r have keep: "length (arrays ?w1) \<le> length (arrays ?w2)" "arrays ?w2 ! p = arrays ?w1 ! p"
    unfolding cannot_reach_def by blast+
  have p1: "arrays ?w1 ! p = arrays w ! p" using Cons.prems by (simp add: nth_append)
  have lt: "p < length (arrays ?w2)" using keep(1) Cons.prems(1) by simp
  have ih: "notify fs p ?w2 = deliver (arrays ?w2 ! p) fs ?w2
     \<and> arrays (notify fs p ?w2) ! p = arrays ?w2 ! p
     \<and> length (arrays ?w2) \<le> length (arrays (notify fs p ?w2))"
  proof -
    have "\<forall>g \<in> set fs. cannot_reach p g" using Cons.prems(2) by simp
    from Cons.IH [OF lt this] show ?thesis .
  qed
  have unf: "notify (f # fs) p w = notify fs p ?w2" by (simp add: spread_def)
  have dl: "deliver (arrays w ! p) (f # fs) w = deliver (arrays w ! p) fs ?w2" by simp
  have k2: "arrays ?w2 ! p = arrays w ! p" using keep(2) p1 by simp
  have ih1: "notify fs p ?w2 = deliver (arrays ?w2 ! p) fs ?w2"
    and ih2: "arrays (notify fs p ?w2) ! p = arrays ?w2 ! p"
    and ih3: "length (arrays ?w2) \<le> length (arrays (notify fs p ?w2))"
    using ih by blast+
  have a: "notify (f # fs) p w = deliver (arrays w ! p) (f # fs) w"
  proof -
    have "notify (f # fs) p w = notify fs p ?w2" by (rule unf)
    also have "\<dots> = deliver (arrays ?w2 ! p) fs ?w2" by (rule ih1)
    also have "\<dots> = deliver (arrays w ! p) fs ?w2" by (simp only: k2)
    also have "\<dots> = deliver (arrays w ! p) (f # fs) w" by (rule dl [symmetric])
    finally show ?thesis .
  qed
  have b: "arrays (notify (f # fs) p w) ! p = arrays w ! p"
  proof -
    have "arrays (notify (f # fs) p w) ! p = arrays (notify fs p ?w2) ! p" by (simp only: unf)
    also have "\<dots> = arrays w ! p" using ih2 k2 by simp
    finally show ?thesis .
  qed
  have c: "length (arrays w) \<le> length (arrays (notify (f # fs) p w))"
  proof -
    have "length (arrays w) \<le> length (arrays ?w1)" by simp
    also have "\<dots> \<le> length (arrays ?w2)" by (rule keep(1))
    also have "\<dots> \<le> length (arrays (notify fs p ?w2))" by (rule ih3)
    finally show ?thesis by (simp only: unf)
  qed
  from a b c show ?case by blast
qed

lemma push_stored:
  "p < length (arrays w) \<Longrightarrow> arrays (push p x w) ! p = arrays w ! p @ [x] \<and> length (arrays (push p x w)) = length (arrays w) \<and> user (push p x w) = user w"
  by (simp add: push_def)

lemma addProject_stored:
  assumes "projects this < length (arrays w)" "\<forall>f \<in> set (listeners this). cannot_reach (projects this) f"
  shows "stored this (addProject this rnd t d n w) = stored this w @ [newProject rnd t d n]"
    and "length (arrays w) \<le> length (arrays (addProject this rnd t d n w))"
    and "addProject this rnd t d n w = deliver (stored this w @ [newProject rnd t d n]) (listeners this) (push (projects this) (newProject rnd t d n) w)"
proof -
  let ?p = "projects this"
  let ?w1 = "push ?p (newProject rnd t d n) w"
  have w1: "arrays ?w1 ! ?p = stored this w @ [newProject rnd t d n]" "length (arrays ?w1) = length (arrays w)"
    using assms(1) by (simp_all add: push_stored stored_def)
  then have "?p < length (arrays ?w1)" using assms(1) by simp
  from notify_deliver [OF this assms(2)]
  have nd: "notify (listeners this) ?p ?w1 = deliver (arrays ?w1 ! ?p) (listeners this) ?w1"
    "arrays (notify (listeners this) ?p ?w1) ! ?p = arrays ?w1 ! ?p"
    "length (arrays ?w1) \<le> length (arrays (notify (listeners this) ?p ?w1))"
    by blast+
  show "stored this (addProject this rnd t d n w) = stored this w @ [newProject rnd t d n]"
    using nd(2) w1(1) by (simp add: addProject_def stored_def)
  show "length (arrays w) \<le> length (arrays (addProject this rnd t d n w))"
    using nd(3) w1(2) by (simp add: addProject_def)
  show "addProject this rnd t d n w = deliver (stored this w @ [newProject rnd t d n]) (listeners this) ?w1"
    using nd(1) w1(1) by (simp add: addProject_def)
qed

lemma addProjects_stored:
  "projects this < length (arrays w) \<Longrightarrow> \<forall>f \<in> set (listeners this). cannot_reach (projects this) f \<Longrightarrow>
   stored this (addProjects this calls w) = stored this w @ map (\<lambda>(rnd, t, d, n). newProject rnd t d n) calls"
proof (induction calls arbitrary: w)
  case Nil then show ?case by simp
next
  case (Cons c calls)
  obtain rnd t d n where c: "c = (rnd, t, d, n)" by (cases c) auto
  let ?w1 = "addProject this rnd t d n w"
  have "projects this < length (arrays ?w1)" using addProject_stored(2) [OF Cons.prems, of rnd t d n] Cons.prems(1) by simp
  from Cons.IH [OF this Cons.prems(2)] addProject_stored(1) [OF Cons.prems, of rnd t d n]
  show ?case by (simp add: c)
qed

lemma cannot_reach_logging: "cannot_reach p logging_listener"
  by (simp add: cannot_reach_def logging_listener_def)
lemma cannot_reach_clearing: "cannot_reach p clearing_listener"
  by (simp add: cannot_reach_def clearing_listener_def)

lemma cannot_reach_probe:
  "\<forall>f \<in> set (listeners probe_state). cannot_reach (projects probe_state) f"
  by (simp add: probe_state_def cannot_reach_logging cannot_reach_clearing)

lemma map_newProject_Active:
  "\<forall>x \<in> set (map (\<lambda>(rnd, t, d, n). newProject rnd t d n) calls). status x = Active"
  by (auto simp: newProject_def)

text \<open>
  C4. \<open>addProject\<close> calls every registered listener once, in the order of registration
  (\<open>addListener\<close> appends), and hands each of them a newly allocated array that holds the
  full list, the new project included: whatever the listeners called before did to the
  arrays they were handed, the next listener receives the same list, and the list the
  broadcaster stores is that list too. The array handed out is never the broadcaster's
  own.
\<close>

theorem addProject_hands_every_listener_a_copy:
  assumes "projects this < length (arrays w)"
    and "\<forall>f \<in> set (listeners this). cannot_reach (projects this) f"
  shows "addProject this rnd t d n w =
           deliver (stored this w @ [newProject rnd t d n]) (listeners this)
             (push (projects this) (newProject rnd t d n) w)
       \<and> stored this (addProject this rnd t d n w) = stored this w @ [newProject rnd t d n]
       \<and> fst (spread (projects this) w) \<noteq> projects this
       \<and> fst (spread (projects this) w) = length (arrays w)
       \<and> arrays (snd (spread (projects this) w)) ! fst (spread (projects this) w) =
           arrays w ! projects this
       \<and> listeners (addListener g this) = listeners this @ [g]"
proof -
  have fresh: "fst (spread (projects this) w) \<noteq> projects this"
    "fst (spread (projects this) w) = length (arrays w)"
    "arrays (snd (spread (projects this) w)) ! fst (spread (projects this) w) = arrays w ! projects this"
    using assms(1) by (simp_all add: spread_def)
  have reg: "listeners (addListener g this) = listeners this @ [g]" by (simp add: addListener_def)
  from addProject_stored(3) [OF assms] addProject_stored(1) [OF assms] fresh reg
  show ?thesis by blast
qed

theorem addProject_hands_every_listener_a_copy_witness:
  "user (addProject probe_state (Fin 5 (- 1)) ''A'' ''first'' (num_of_int 2) probe_world) =
     [[newProject (Fin 5 (- 1)) ''A'' ''first'' (num_of_int 2)],
      [newProject (Fin 5 (- 1)) ''A'' ''first'' (num_of_int 2)]]
   \<and> stored probe_state (addProject probe_state (Fin 5 (- 1)) ''A'' ''first'' (num_of_int 2) probe_world) =
     [newProject (Fin 5 (- 1)) ''A'' ''first'' (num_of_int 2)]"
proof -
  let ?x = "newProject (Fin 5 (- 1)) ''A'' ''first'' (num_of_int 2)"
  let ?w = "addProject probe_state (Fin 5 (- 1)) ''A'' ''first'' (num_of_int 2) probe_world"
  have wf: "projects probe_state < length (arrays probe_world)"
    by (simp add: probe_state_def probe_world_def)
  have st: "stored probe_state probe_world = []"
    by (simp add: stored_def probe_state_def probe_world_def)
  from addProject_hands_every_listener_a_copy [OF wf cannot_reach_probe,
      of "Fin 5 (- 1)" "''A''" "''first''" "num_of_int 2"]
  have eq: "?w = deliver (stored probe_state probe_world @ [?x]) (listeners probe_state)
                   (push (projects probe_state) ?x probe_world)"
    and kept: "stored probe_state ?w = stored probe_state probe_world @ [?x]"
    by blast+
  have "user (deliver [?x] (listeners probe_state) (push (projects probe_state) ?x probe_world)) =
      [[?x], [?x]]"
    by (simp add: probe_state_def probe_world_def push_def clearing_listener_def
        logging_listener_def nth_append)
  then have "user ?w = [[?x], [?x]]" by (simp only: eq st append_Nil)
  moreover have "stored probe_state ?w = [?x]" by (simp only: kept st append_Nil)
  ultimately show ?thesis by blast
qed

subsection \<open>The singleton\<close>

lemma getInstance_again:
  "getInstance cls w = (r, cls1, w1) \<Longrightarrow>
     instance_s cls1 = Some r \<and> getInstance cls1 w1 = (r, cls1, w1)"
  by (auto simp: getInstance_def new_ProjectState_def Let_def split: option.splits)

lemma getInstance_Some: "instance_s cls = Some r \<Longrightarrow> getInstance cls w = (r, cls, w)"
  by (simp add: getInstance_def)

lemma getInstances_Some:
  "instance_s cls = Some r \<Longrightarrow> getInstances n cls w = (replicate n r, cls, w)"
  by (induction n) (simp_all add: getInstance_Some)

lemma getInstance_class0:
  "getInstance class0 w =
     (0, \<lparr>instance_s = Some 0, constructed = [\<lparr>listeners = [], projects = length (arrays w)\<rparr>]\<rparr>,
      w\<lparr>arrays := arrays w @ [[]]\<rparr>)"
  by (simp add: getInstance_def class0_def new_ProjectState_def)

text \<open>
  C8. \<open>getInstance\<close> is idempotent: whatever an access returns, the next access returns the
  same reference and changes nothing; once the static field is set, an access returns its
  value and constructs nothing. From the class before its first use, any number of
  accesses return one and the same reference, and exactly one \<open>ProjectState\<close> has been
  constructed.
\<close>

theorem getInstance_returns_the_single_instance:
  "(getInstance cls w = (r, cls1, w1) \<longrightarrow>
      instance_s cls1 = Some r \<and> getInstance cls1 w1 = (r, cls1, w1))
   \<and> (instance_s cls = Some r \<longrightarrow> getInstance cls w = (r, cls, w))
   \<and> getInstances (Suc n) class0 w =
       (replicate (Suc n) 0,
        \<lparr>instance_s = Some 0, constructed = [\<lparr>listeners = [], projects = length (arrays w)\<rparr>]\<rparr>,
        w\<lparr>arrays := arrays w @ [[]]\<rparr>)
   \<and> length (constructed (fst (snd (getInstances (Suc n) class0 w)))) = 1"
proof -
  have many: "getInstances (Suc n) class0 w =
       (replicate (Suc n) 0,
        \<lparr>instance_s = Some 0, constructed = [\<lparr>listeners = [], projects = length (arrays w)\<rparr>]\<rparr>,
        w\<lparr>arrays := arrays w @ [[]]\<rparr>)"
    by (simp add: getInstance_class0 getInstances_Some)
  then have "length (constructed (fst (snd (getInstances (Suc n) class0 w)))) = 1" by simp
  with many getInstance_again [of cls w r cls1 w1] getInstance_Some [of cls r w]
  show ?thesis by blast
qed

theorem getInstance_returns_the_single_instance_witness:
  "fst (getInstance class0 probe_world) = 0
   \<and> getInstance (fst (snd (getInstance class0 probe_world)))
        (snd (snd (getInstance class0 probe_world))) =
       (0, fst (snd (getInstance class0 probe_world)), snd (snd (getInstance class0 probe_world)))
   \<and> fst (getInstances (Suc (Suc (Suc 0))) class0 probe_world) = [0, 0, 0]
   \<and> length (constructed (fst (snd (getInstances (Suc (Suc (Suc 0))) class0 probe_world)))) = 1"
proof -
  obtain r c w where g: "getInstance class0 probe_world = (r, c, w)"
    by (cases "getInstance class0 probe_world") auto
  then have r: "r = 0" by (simp add: getInstance_class0)
  from getInstance_returns_the_single_instance [of class0 probe_world r c w "Suc (Suc 0)"] g
  have again: "getInstance c w = (r, c, w)"
    and many: "getInstances (Suc (Suc (Suc 0))) class0 probe_world =
       (replicate (Suc (Suc (Suc 0))) 0,
        \<lparr>instance_s = Some 0, constructed = [\<lparr>listeners = [], projects = length (arrays probe_world)\<rparr>]\<rparr>,
        probe_world\<lparr>arrays := arrays probe_world @ [[]]\<rparr>)"
    and one: "length (constructed (fst (snd (getInstances (Suc (Suc (Suc 0))) class0 probe_world)))) = 1"
    by blast+
  have "fst (getInstances (Suc (Suc (Suc 0))) class0 probe_world) = [0, 0, 0]"
    by (simp only: many fst_conv replicate.simps)
  with again one r g show ?thesis by simp
qed

section \<open>Numbers as strings: theorems\<close>

lemma trim_nonempty_iff: "trim s \<noteq> [] \<longleftrightarrow> (\<exists>c \<in> set s. \<not> isWhiteSpace c)"
proof
  assume "trim s \<noteq> []"
  then have "dropWhile isWhiteSpace s \<noteq> []" by (auto simp: trim_def dest: set_dropWhileD)
  then show "\<exists>c \<in> set s. \<not> isWhiteSpace c" by (simp add: dropWhile_eq_Nil_conv)
next
  assume "\<exists>c \<in> set s. \<not> isWhiteSpace c"
  then have ne: "dropWhile isWhiteSpace s \<noteq> []" by (simp add: dropWhile_eq_Nil_conv)
  then have "\<not> isWhiteSpace (hd (dropWhile isWhiteSpace s))" by (rule hd_dropWhile)
  moreover have "hd (dropWhile isWhiteSpace s) \<in> set (rev (dropWhile isWhiteSpace s))"
    using ne by simp
  ultimately have "dropWhile isWhiteSpace (rev (dropWhile isWhiteSpace s)) \<noteq> []"
    unfolding dropWhile_eq_Nil_conv by blast
  then show "trim s \<noteq> []" by (simp add: trim_def)
qed

lemma digitChar_not_space: "d < 10 \<Longrightarrow> \<not> isWhiteSpace (digitChar d)"
  by (simp add: isWhiteSpace_def digitChar_def)

lemma digitChar_not_zero: "d < 10 \<Longrightarrow> 0 < d \<Longrightarrow> digitChar d \<noteq> CHR ''0''"
proof
  assume d: "d < 10" "0 < d" and "digitChar d = CHR ''0''"
  then have "(of_char (digitChar d) :: nat) = of_char (CHR ''0'')" by simp
  with d show False by (simp add: digitChar_def)
qed

lemma natDigits_not_space: "\<forall>c \<in> set (natDigits n). \<not> isWhiteSpace c"
proof (induction n rule: natDigits.induct)
  case (1 n)
  show ?case
  proof (cases "n < 10")
    case True
    then show ?thesis by (simp add: natDigits.simps [of n] digitChar_not_space)
  next
    case False
    with 1 show ?thesis by (simp add: natDigits.simps [of n] digitChar_not_space)
  qed
qed

lemma natDigits_nonzero: "0 < n \<Longrightarrow> \<exists>c \<in> set (natDigits n). c \<noteq> CHR ''0''"
proof (induction n rule: natDigits.induct)
  case (1 n)
  show ?case
  proof (cases "n < 10")
    case True
    with 1(2) show ?thesis by (simp add: natDigits.simps [of n] digitChar_not_zero)
  next
    case False
    then have "0 < n div 10" by simp
    with 1(1) False have "\<exists>c \<in> set (natDigits (n div 10)). c \<noteq> CHR ''0''" by simp
    with False show ?thesis by (auto simp: natDigits.simps [of n])
  qed
qed

lemma stripZeros_nonempty: "0 < m \<Longrightarrow> stripZeros (natDigits m) \<noteq> []"
  using natDigits_nonzero [of m] by (auto simp: stripZeros_def dropWhile_eq_Nil_conv)

lemma stripZeros_not_space: "\<forall>c \<in> set (stripZeros (natDigits m)). \<not> isWhiteSpace c"
  using natDigits_not_space [of m] by (auto simp: stripZeros_def dest: set_dropWhileD)

lemma literal_chars_not_space:
  "\<not> isWhiteSpace (CHR ''.'')" "\<not> isWhiteSpace (CHR ''0'')" "\<not> isWhiteSpace (CHR ''e'')"
  "\<not> isWhiteSpace (CHR ''-'')" "\<not> isWhiteSpace (CHR ''N'')" "\<not> isWhiteSpace (CHR ''I'')"
  by (simp_all add: isWhiteSpace_def)

lemma posToString_visible: "0 < m \<Longrightarrow> \<exists>c \<in> set (posToString m e). \<not> isWhiteSpace c"
proof -
  assume m: "0 < m"
  obtain c where c: "c \<in> set (stripZeros (natDigits m))" "\<not> isWhiteSpace c"
    using stripZeros_nonempty [OF m] stripZeros_not_space [of m]
    by (cases "stripZeros (natDigits m)") auto
  show ?thesis
    unfolding posToString_def Let_def
    using c literal_chars_not_space by (auto simp: Bex_def)
qed

lemma numToString_visible: "\<exists>c \<in> set (numToString n). \<not> isWhiteSpace c"
proof (cases n)
  case (Fin m e)
  show ?thesis
  proof (cases "m = 0")
    case True with Fin show ?thesis by (simp add: literal_chars_not_space)
  next
    case False
    then consider "m < 0" | "0 < m" by linarith
    then show ?thesis
    proof cases
      case 1 with Fin show ?thesis by (simp add: literal_chars_not_space)
    next
      case 2
      then have "0 < nat m" by simp
      from posToString_visible [OF this, of e] 2 Fin show ?thesis by simp
    qed
  qed
qed (simp_all add: literal_chars_not_space)

lemma trim_numToString: "trim (numToString n) \<noteq> []"
  by (simp add: trim_nonempty_iff numToString_visible)

lemma toNumber_empty: "toNumber '''' = num_of_int 0"
  by (simp add: toNumber_def trim_def)

lemma numToString_2: "numToString (num_of_int 2) = ''2''"
  by code_simp

lemma persons_not_singular: "xs @ '' persons'' \<noteq> ''1 person''"
proof
  assume "xs @ '' persons'' = ''1 person''"
  then have "last (xs @ '' persons'') = last ''1 person''" by (rule arg_cong)
  then show False by simp
qed

text \<open>
  C7. The string of the getter \<open>persons\<close> is \<open>1 person\<close> exactly when the headcount
  equals 1, and otherwise the headcount as a string followed by \<open>persons\<close>; the text of
  the \<open>h3\<close> element is that string followed by \<open>assigned\<close>. For the headcounts 1 and 2
  the strings are \<open>1 person\<close> and \<open>2 persons\<close>.
\<close>

theorem persons_singular_exactly_for_one:
  "(persons project = ''1 person'') = num_eq (people project) (num_of_int 1)
   \<and> persons project =
       (if num_eq (people project) (num_of_int 1) then ''1 person''
        else numToString (people project) @ '' persons'')
   \<and> h3_textContent (renderContent project renderedEl) = persons project @ '' assigned''
   \<and> persons (project\<lparr>people := num_of_int 1\<rparr>) = ''1 person''
   \<and> persons (project\<lparr>people := num_of_int 2\<rparr>) = ''2 persons''"
proof -
  have iff: "(persons project = ''1 person'') = num_eq (people project) (num_of_int 1)"
    using persons_not_singular [of "numToString (people project)"] by (simp add: persons_def)
  have one: "persons (project\<lparr>people := num_of_int 1\<rparr>) = ''1 person''"
    by (simp add: persons_def fin_eq_def)
  have two: "persons (project\<lparr>people := num_of_int 2\<rparr>) = ''2 persons''"
    by (simp add: persons_def fin_eq_def numToString_2 del: numToString.simps)
  have h3: "h3_textContent (renderContent project renderedEl) = persons project @ '' assigned''"
    by (simp add: renderContent_def)
  from iff one two h3 show ?thesis by (simp add: persons_def)
qed

text \<open>
  C10. The string form of a number is never empty after trimming, so \<open>required\<close> holds for
  every value that is a number. The empty \<open>people\<close> field is converted by \<open>+\<close> to 0: it
  passes \<open>required\<close> and \<open>max\<close>, the length rules do not apply to it, and \<open>min: 1\<close> is
  the one rule that rejects it.
\<close>

theorem number_always_passes_required:
  "trim (toString (Num n)) \<noteq> []
   \<and> rule_required (v\<lparr>value_v := Num n\<rparr>)
   \<and> validate ((only_value (Num n))\<lparr>required := Some True\<rparr>)
   \<and> toNumber '''' = num_of_int 0
   \<and> rule_required (peopleValidatable '''')
   \<and> rule_minLength (peopleValidatable '''')
   \<and> rule_maxLength (peopleValidatable '''')
   \<and> \<not> rule_min (peopleValidatable '''')
   \<and> rule_max (peopleValidatable '''')
   \<and> \<not> validate (peopleValidatable '''')"
proof -
  have req: "rule_required (v\<lparr>value_v := Num n\<rparr>)"
    by (simp add: rule_required_def trim_numToString del: numToString.simps)
  have val: "validate ((only_value (Num n))\<lparr>required := Some True\<rparr>)"
    by (simp add: validate_rules rule_required_def rule_minLength_def rule_maxLength_def
        rule_min_def rule_max_def only_value_def trim_numToString del: numToString.simps)
  have p: "peopleValidatable '''' =
      (only_value (Num (num_of_int 0)))
        \<lparr>required := Some True, min_v := Some (num_of_int 1), max_v := Some (num_of_int 5)\<rparr>"
    by (simp add: peopleValidatable_def toNumber_empty)
  have rules: "rule_required (peopleValidatable '''')" "rule_minLength (peopleValidatable '''')"
    "rule_maxLength (peopleValidatable '''')" "\<not> rule_min (peopleValidatable '''')"
    "rule_max (peopleValidatable '''')"
    by (simp_all add: p rule_required_def rule_minLength_def rule_maxLength_def rule_min_def
        rule_max_def only_value_def trim_numToString fin_le_def del: numToString.simps)
  then have "\<not> validate (peopleValidatable '''')" by (simp add: validate_rules)
  with req val rules toNumber_empty trim_numToString [of n] show ?thesis
    by (simp del: numToString.simps)
qed

section \<open>The views and the program: theorems\<close>

lemma foldl_new_ProjectItem: "foldl new_ProjectItem acc ps = acc @ map item_view ps"
  by (induction ps arbitrary: acc) (simp_all add: new_ProjectItem_def attach_def item_view_def)

lemma renderProjects_eq: "renderProjects this = this\<lparr>ul := map item_view (assignedProjects this)\<rparr>"
  by (simp add: renderProjects_def foldl_new_ProjectItem)

lemma relevant_status_of: "relevant ty = (\<lambda>prj. status prj = status_of ty)"
  by (cases ty) (simp_all add: relevant_def fun_eq_iff)

lemma on_projects_shown: "on_projects items this = shown (type_l this) items"
  by (cases this) (simp add: on_projects_def renderProjects_eq shown_def relevant_status_of Let_def)

lemma cannot_reach_ProjectList_listener: "cannot_reach p (ProjectList_listener i)"
  by (simp add: cannot_reach_def ProjectList_listener_def)

lemma shown_type: "type_l (shown ty items) = ty"
  by (simp add: shown_def)

lemma addProject_app:
  assumes "app_inv a"
  shows "stored (projectState_obj a) (addProject (projectState_obj a) rnd t d n (the_world a)) =
           stored_projects a @ [newProject rnd t d n]"
    and "arrays (addProject (projectState_obj a) rnd t d n (the_world a)) \<noteq> []"
    and "user (addProject (projectState_obj a) rnd t d n (the_world a)) =
           (user (the_world a))\<lparr>prjLists :=
              [shown active (stored_projects a @ [newProject rnd t d n]),
               shown finished (stored_projects a @ [newProject rnd t d n])]\<rparr>"
proof -
  let ?ps = "projectState_obj a"
  let ?w = "the_world a"
  let ?P = "stored_projects a @ [newProject rnd t d n]"
  have ps: "?ps = \<lparr>listeners = [ProjectList_listener 0, ProjectList_listener 1], projects = 0\<rparr>"
    using assms by (simp add: app_inv_def projectState_obj_def)
  have wf: "projects ?ps < length (arrays ?w)" using assms by (simp add: ps app_inv_def)
  have cr: "\<forall>f \<in> set (listeners ?ps). cannot_reach (projects ?ps) f"
    by (simp add: ps cannot_reach_ProjectList_listener)
  show "stored ?ps (addProject ?ps rnd t d n ?w) = ?P"
    using addProject_stored(1) [OF wf cr] by (simp add: stored_projects_def)
  show "arrays (addProject ?ps rnd t d n ?w) \<noteq> []"
    using addProject_stored(2) [OF wf cr, of rnd t d n] wf by auto
  have lists: "prjLists (user ?w) = [shown active (stored_projects a), shown finished (stored_projects a)]"
    using assms by (simp add: app_inv_def)
  have eq: "addProject ?ps rnd t d n ?w = deliver ?P (listeners ?ps) (push (projects ?ps) (newProject rnd t d n) ?w)"
    using addProject_stored(3) [OF wf cr] by (simp add: stored_projects_def)
  show "user (addProject ?ps rnd t d n ?w) =
           (user ?w)\<lparr>prjLists := [shown active ?P, shown finished ?P]\<rparr>"
    unfolding eq
    by (simp add: ps push_def ProjectList_listener_def lists on_projects_shown shown_type nth_append)
qed

lemma stored_projects_init: "stored_projects init = []"
  by (simp add: init_def getInstance_class0 new_ProjectList_def addListener_def views0_def
      stored_projects_def stored_def projectState_obj_def Let_def)

lemma shown_Nil: "shown ty [] = \<lparr>type_l = ty, assignedProjects = [], ul = []\<rparr>"
  by (simp add: shown_def)

lemma app_inv_init: "app_inv init"
  unfolding app_inv_def stored_projects_init shown_Nil
  by (simp add: init_def getInstance_class0 new_ProjectList_def addListener_def views0_def Let_def)

lemma submitHandler_invalid:
  "\<not> inputs_valid a \<Longrightarrow>
     submitHandler rnd a =
       a\<lparr>the_world := (the_world a)\<lparr>user := (user (the_world a))
           \<lparr>alerts := alerts (user (the_world a)) @ [''Invalid input, please try again'']\<rparr>\<rparr>\<rparr>"
  by (auto simp: submitHandler_def gatherUserInput_def inputs_valid_def Let_def)

lemma submitHandler_valid:
  "inputs_valid a \<Longrightarrow>
     submitHandler rnd a =
       a\<lparr>the_world :=
           (let w2 = addProject (projectState_obj a) rnd
                       (titleInputEl (prjInput (user (the_world a))))
                       (descriptionInputEl (prjInput (user (the_world a))))
                       (toNumber (peopleInputEl (prjInput (user (the_world a)))))
                       (the_world a)
            in w2\<lparr>user := clearInputs (user w2)\<rparr>)\<rparr>"
  by (simp add: submitHandler_def gatherUserInput_def inputs_valid_def Let_def projectState_obj_def)

lemma stored_submit_valid:
  assumes "app_inv a" "inputs_valid a"
  shows "stored_projects (submitHandler rnd a) =
           stored_projects a @
             [newProject rnd (titleInputEl (prjInput (user (the_world a))))
                (descriptionInputEl (prjInput (user (the_world a))))
                (toNumber (peopleInputEl (prjInput (user (the_world a)))))]"
    and "app_inv (submitHandler rnd a)"
    and "prjInput (user (the_world (submitHandler rnd a))) =
           \<lparr>titleInputEl = '''', descriptionInputEl = '''', peopleInputEl = ''''\<rparr>"
    and "alerts (user (the_world (submitHandler rnd a))) = alerts (user (the_world a))"
proof -
  let ?t = "titleInputEl (prjInput (user (the_world a)))"
  let ?d = "descriptionInputEl (prjInput (user (the_world a)))"
  let ?n = "toNumber (peopleInputEl (prjInput (user (the_world a))))"
  let ?w2 = "addProject (projectState_obj a) rnd ?t ?d ?n (the_world a)"
  let ?a' = "submitHandler rnd a"
  have a': "?a' = a\<lparr>the_world := ?w2\<lparr>user := clearInputs (user ?w2)\<rparr>\<rparr>"
    using submitHandler_valid [OF assms(2)] by (simp add: Let_def)
  have obj: "projectState_obj ?a' = projectState_obj a" by (simp add: a' projectState_obj_def)
  note ap = addProject_app [OF assms(1), of rnd ?t ?d ?n]
  have "stored (projectState_obj a) (the_world ?a') = stored (projectState_obj a) ?w2"
    by (simp add: a' stored_def)
  with ap(1) show st: "stored_projects ?a' = stored_projects a @ [newProject rnd ?t ?d ?n]"
    by (simp add: stored_projects_def obj)
  show "app_inv ?a'"
    unfolding app_inv_def st
    using assms(1) ap(2) ap(3) by (simp add: a' app_inv_def clearInputs_def)
  show "prjInput (user (the_world ?a')) =
           \<lparr>titleInputEl = '''', descriptionInputEl = '''', peopleInputEl = ''''\<rparr>"
    by (simp add: a' clearInputs_def)
  show "alerts (user (the_world ?a')) = alerts (user (the_world a))"
    using ap(3) by (simp add: a' clearInputs_def)
qed

lemma stored_submit_invalid:
  assumes "\<not> inputs_valid a"
  shows "stored_projects (submitHandler rnd a) = stored_projects a"
    and "app_inv a \<Longrightarrow> app_inv (submitHandler rnd a)"
    and "prjInput (user (the_world (submitHandler rnd a))) = prjInput (user (the_world a))"
    and "prjLists (user (the_world (submitHandler rnd a))) = prjLists (user (the_world a))"
    and "alerts (user (the_world (submitHandler rnd a))) =
           alerts (user (the_world a)) @ [''Invalid input, please try again'']"
  by (simp_all add: submitHandler_invalid [OF assms] stored_projects_def stored_def
      projectState_obj_def app_inv_def)

lemma stored_call:
  assumes "app_inv a"
  shows "stored_projects (step a (Call_addProject rnd t d n)) = stored_projects a @ [newProject rnd t d n]"
    and "app_inv (step a (Call_addProject rnd t d n))"
proof -
  let ?a' = "step a (Call_addProject rnd t d n)"
  have obj: "projectState_obj (a\<lparr>the_world := w\<rparr>) = projectState_obj a" for w
    by (simp add: projectState_obj_def)
  note ap = addProject_app [OF assms, of rnd t d n]
  show st: "stored_projects ?a' = stored_projects a @ [newProject rnd t d n]"
    using ap(1) by (simp add: stored_projects_def obj)
  show "app_inv ?a'"
    unfolding app_inv_def st using assms ap(2) ap(3) by (simp add: app_inv_def)
qed

lemma set_input_keeps:
  "stored_projects (set_input f a) = stored_projects a"
  "app_inv a \<Longrightarrow> app_inv (set_input f a)"
  "prjLists (user (the_world (set_input f a))) = prjLists (user (the_world a))"
  by (simp_all add: set_input_def stored_projects_def stored_def projectState_obj_def app_inv_def)

lemma app_inv_step: "app_inv a \<Longrightarrow> app_inv (step a ev)"
proof (cases ev)
  case (Submit rnd)
  assume "app_inv a"
  then show ?thesis
    using stored_submit_valid(2) [of a rnd] stored_submit_invalid(2) [of a rnd]
    by (cases "inputs_valid a") (simp_all add: Submit)
next
  case (Call_addProject rnd t d n)
  assume "app_inv a"
  then show ?thesis using stored_call(2) by (simp only: Call_addProject)
qed (simp_all add: set_input_keeps)

lemma run_snoc: "run (evs @ [ev]) = step (run evs) ev"
  by (simp add: run_def)

lemma run_Nil: "run [] = init"
  by (simp add: run_def)

lemma app_inv_run: "app_inv (run evs)"
  by (induction evs rule: rev_induct) (simp_all add: run_Nil run_snoc app_inv_init app_inv_step)

lemma stored_step:
  assumes "app_inv a"
  shows "stored_projects (step a ev) = stored_projects a
       \<or> (\<exists>rnd t d n. stored_projects (step a ev) = stored_projects a @ [newProject rnd t d n])"
proof (cases ev)
  case (Submit rnd)
  then show ?thesis
    using stored_submit_valid(1) [OF assms, of rnd] stored_submit_invalid(1) [of a rnd]
    by (cases "inputs_valid a") auto
next
  case (Call_addProject rnd t d n)
  then show ?thesis using stored_call(1) [OF assms] by auto
qed (simp_all add: set_input_keeps)

lemma all_Active_run: "\<forall>p \<in> set (stored_projects (run evs)). status p = Active"
proof (induction evs rule: rev_induct)
  case Nil
  then show ?case by (simp add: run_Nil stored_projects_init)
next
  case (snoc ev evs)
  from stored_step [OF app_inv_run, of evs ev] snoc show ?case
    by (auto simp: run_snoc newProject_def)
qed

lemma inputs_valid_people:
  assumes "inputs_valid a"
  shows "num_le (num_of_int 1) (toNumber (peopleInputEl (prjInput (user (the_world a)))))"
    and "num_le (toNumber (peopleInputEl (prjInput (user (the_world a))))) (num_of_int 5)"
proof -
  from assms have "validate (peopleValidatable (peopleInputEl (prjInput (user (the_world a)))))"
    by (simp add: inputs_valid_def)
  then have "rule_min (peopleValidatable (peopleInputEl (prjInput (user (the_world a)))))"
    "rule_max (peopleValidatable (peopleInputEl (prjInput (user (the_world a)))))"
    by (simp_all add: validate_rules)
  then show "num_le (num_of_int 1) (toNumber (peopleInputEl (prjInput (user (the_world a)))))"
    and "num_le (toNumber (peopleInputEl (prjInput (user (the_world a))))) (num_of_int 5)"
    by (simp_all add: rule_min_def rule_max_def peopleValidatable_def only_value_def)
qed

lemma init_views:
  "user (the_world init) = views0\<lparr>prjLists := [shown active [], shown finished []]\<rparr>"
  by (simp add: init_def getInstance_class0 new_ProjectList_def addListener_def views0_def
      shown_Nil Let_def)

lemma typed_state:
  "prjInput (user (the_world (typed t d p))) =
     \<lparr>titleInputEl = t, descriptionInputEl = d, peopleInputEl = p\<rparr>"
  "alerts (user (the_world (typed t d p))) = []"
  "stored_projects (typed t d p) = []"
  "app_inv (typed t d p)"
proof -
  show "prjInput (user (the_world (typed t d p))) =
     \<lparr>titleInputEl = t, descriptionInputEl = d, peopleInputEl = p\<rparr>"
    by (simp add: typed_def run_def set_input_def init_views views0_def)
  show "alerts (user (the_world (typed t d p))) = []"
    by (simp add: typed_def run_def set_input_def init_views views0_def)
  show "stored_projects (typed t d p) = []"
    by (simp add: typed_def run_def set_input_keeps stored_projects_init)
  show "app_inv (typed t d p)"
    unfolding typed_def by (rule app_inv_run)
qed

lemma submit_after_typing:
  "run [Type_title t, Type_description d, Type_people p, Submit rnd] = submitHandler rnd (typed t d p)"
  by (simp add: run_def typed_def)

lemma scenario_values:
  "validate (titleValidatable ''Build API'')"
  "validate (descriptionValidatable ''Backend work'')"
  "validate (peopleValidatable ''3'')"
  "toNumber ''3'' = num_of_int 3"
  "\<not> validate (titleValidatable '''')"
  "validate (titleValidatable ''T'')"
  "validate (descriptionValidatable ''Descr'')"
  "validate (peopleValidatable ''2.5'')"
  "toNumber ''2.5'' = Fin 25 (- 1)"
  by code_simp+

lemma inputs_valid_typed:
  "inputs_valid (typed t d p) =
     (validate (titleValidatable t) \<and> validate (descriptionValidatable d) \<and>
      validate (peopleValidatable p))"
  by (simp add: inputs_valid_def typed_state)

text \<open>
  C2. The three rule sets are: title required; description required with \<open>minLength\<close> 5;
  headcount, converted to a number, required with \<open>min\<close> 1 and \<open>max\<close> 5. When one of
  them fails, the submit handler shows the alert and changes nothing else: the stored
  list, the three fields and the list views are as before. When all pass, it calls
  \<open>addProject\<close> once, with the title, the description and the headcount as a number, and
  then sets the three fields to the empty string: in every state the program reaches, the
  stored list grows by exactly that project, and no alert is shown.
\<close>

theorem submit_alerts_or_adds_and_clears:
  "titleValidatable t = (only_value (Str t))\<lparr>required := Some True\<rparr>
   \<and> descriptionValidatable d =
       (only_value (Str d))\<lparr>required := Some True, minLength := Some (num_of_int 5)\<rparr>
   \<and> peopleValidatable p =
       (only_value (Num (toNumber p)))
         \<lparr>required := Some True, min_v := Some (num_of_int 1), max_v := Some (num_of_int 5)\<rparr>
   \<and> (\<not> inputs_valid a \<longrightarrow>
        submitHandler rnd a =
          a\<lparr>the_world := (the_world a)\<lparr>user := (user (the_world a))
              \<lparr>alerts := alerts (user (the_world a)) @ [''Invalid input, please try again'']\<rparr>\<rparr>\<rparr>
        \<and> stored_projects (submitHandler rnd a) = stored_projects a
        \<and> prjInput (user (the_world (submitHandler rnd a))) = prjInput (user (the_world a))
        \<and> prjLists (user (the_world (submitHandler rnd a))) = prjLists (user (the_world a)))
   \<and> (inputs_valid a \<longrightarrow>
        submitHandler rnd a =
          a\<lparr>the_world :=
              (let w2 = addProject (projectState_obj a) rnd
                          (titleInputEl (prjInput (user (the_world a))))
                          (descriptionInputEl (prjInput (user (the_world a))))
                          (toNumber (peopleInputEl (prjInput (user (the_world a)))))
                          (the_world a)
               in w2\<lparr>user := clearInputs (user w2)\<rparr>)\<rparr>)
   \<and> (inputs_valid (run evs) \<longrightarrow>
        stored_projects (submitHandler rnd (run evs)) =
          stored_projects (run evs) @
            [newProject rnd (titleInputEl (prjInput (user (the_world (run evs)))))
               (descriptionInputEl (prjInput (user (the_world (run evs)))))
               (toNumber (peopleInputEl (prjInput (user (the_world (run evs))))))]
        \<and> prjInput (user (the_world (submitHandler rnd (run evs)))) =
            \<lparr>titleInputEl = '''', descriptionInputEl = '''', peopleInputEl = ''''\<rparr>
        \<and> alerts (user (the_world (submitHandler rnd (run evs)))) =
            alerts (user (the_world (run evs))))"
proof -
  have rules: "titleValidatable t = (only_value (Str t))\<lparr>required := Some True\<rparr>"
    "descriptionValidatable d =
       (only_value (Str d))\<lparr>required := Some True, minLength := Some (num_of_int 5)\<rparr>"
    "peopleValidatable p =
       (only_value (Num (toNumber p)))
         \<lparr>required := Some True, min_v := Some (num_of_int 1), max_v := Some (num_of_int 5)\<rparr>"
    by (simp_all only: titleValidatable_def descriptionValidatable_def peopleValidatable_def)
  note bad = submitHandler_invalid [of a rnd] stored_submit_invalid(1,3,4) [of a rnd]
  note good = submitHandler_valid [of a rnd]
  note reach = stored_submit_valid(1,3,4) [OF app_inv_run, of evs rnd]
  from rules bad good reach show ?thesis by blast
qed

theorem submit_alerts_or_adds_and_clears_witness:
  "stored_projects (submitHandler (Fin 5 (- 1)) (typed ''Build API'' ''Backend work'' ''3'')) =
     [newProject (Fin 5 (- 1)) ''Build API'' ''Backend work'' (num_of_int 3)]
   \<and> prjInput (user (the_world (submitHandler (Fin 5 (- 1)) (typed ''Build API'' ''Backend work'' ''3'')))) =
       \<lparr>titleInputEl = '''', descriptionInputEl = '''', peopleInputEl = ''''\<rparr>
   \<and> alerts (user (the_world (submitHandler (Fin 5 (- 1)) (typed ''Build API'' ''Backend work'' ''3'')))) = []
   \<and> stored_projects (submitHandler (Fin 5 (- 1)) (typed '''' ''x'' ''1'')) = []
   \<and> prjInput (user (the_world (submitHandler (Fin 5 (- 1)) (typed '''' ''x'' ''1'')))) =
       \<lparr>titleInputEl = '''', descriptionInputEl = ''x'', peopleInputEl = ''1''\<rparr>
   \<and> alerts (user (the_world (submitHandler (Fin 5 (- 1)) (typed '''' ''x'' ''1'')))) =
       [''Invalid input, please try again'']"
proof -
  let ?ok = "typed ''Build API'' ''Backend work'' ''3''"
  let ?bad = "typed '''' ''x'' ''1''"
  have ok: "inputs_valid ?ok" by (simp add: inputs_valid_typed scenario_values)
  have bad: "\<not> inputs_valid ?bad" by (simp add: inputs_valid_typed scenario_values)
  have run_ok: "?ok = run [Type_title ''Build API'', Type_description ''Backend work'', Type_people ''3'']"
    by (simp only: typed_def)
  from submit_alerts_or_adds_and_clears
    [of _ _ _ ?ok "Fin 5 (- 1)" "[Type_title ''Build API'', Type_description ''Backend work'', Type_people ''3'']"]
    ok
  have "stored_projects (submitHandler (Fin 5 (- 1)) ?ok) =
          stored_projects ?ok @
            [newProject (Fin 5 (- 1)) (titleInputEl (prjInput (user (the_world ?ok))))
               (descriptionInputEl (prjInput (user (the_world ?ok))))
               (toNumber (peopleInputEl (prjInput (user (the_world ?ok)))))]
        \<and> prjInput (user (the_world (submitHandler (Fin 5 (- 1)) ?ok))) =
            \<lparr>titleInputEl = '''', descriptionInputEl = '''', peopleInputEl = ''''\<rparr>
        \<and> alerts (user (the_world (submitHandler (Fin 5 (- 1)) ?ok))) =
            alerts (user (the_world ?ok))"
    unfolding run_ok [symmetric] by blast
  then have first: "stored_projects (submitHandler (Fin 5 (- 1)) ?ok) =
       [newProject (Fin 5 (- 1)) ''Build API'' ''Backend work'' (num_of_int 3)]
     \<and> prjInput (user (the_world (submitHandler (Fin 5 (- 1)) ?ok))) =
         \<lparr>titleInputEl = '''', descriptionInputEl = '''', peopleInputEl = ''''\<rparr>
     \<and> alerts (user (the_world (submitHandler (Fin 5 (- 1)) ?ok))) = []"
    by (simp add: typed_state scenario_values)
  from submit_alerts_or_adds_and_clears [of _ _ _ ?bad "Fin 5 (- 1)"] bad
  have eq: "submitHandler (Fin 5 (- 1)) ?bad =
          ?bad\<lparr>the_world := (the_world ?bad)\<lparr>user := (user (the_world ?bad))
              \<lparr>alerts := alerts (user (the_world ?bad)) @ [''Invalid input, please try again'']\<rparr>\<rparr>\<rparr>"
    and st: "stored_projects (submitHandler (Fin 5 (- 1)) ?bad) = stored_projects ?bad"
    and inp: "prjInput (user (the_world (submitHandler (Fin 5 (- 1)) ?bad))) = prjInput (user (the_world ?bad))"
    by blast+
  have al: "alerts (user (the_world (submitHandler (Fin 5 (- 1)) ?bad))) =
         [''Invalid input, please try again'']"
    by (simp add: eq typed_state)
  have second: "stored_projects (submitHandler (Fin 5 (- 1)) ?bad) = []
     \<and> prjInput (user (the_world (submitHandler (Fin 5 (- 1)) ?bad))) =
         \<lparr>titleInputEl = [], descriptionInputEl = ''x'', peopleInputEl = ''1''\<rparr>
     \<and> alerts (user (the_world (submitHandler (Fin 5 (- 1)) ?bad))) =
         [''Invalid input, please try again'']"
    using al by (simp only: st inp typed_state)
  from first second show ?thesis by blast
qed

subsection \<open>The list views\<close>

text \<open>
  The redraw of a list view, in the version with the base component: whatever the \<open>ul\<close>
  held before, it then holds exactly one element for each project of the snapshot that has
  the status of the view, in the order of the snapshot, and the \<open>h2\<close> texts are their
  titles.
\<close>

lemma list_view_redraw_shows_filtered:
  "on_projects items this = shown (type_l this) items
   \<and> on_projects items (this\<lparr>ul := old\<rparr>) = on_projects items this
   \<and> ul (renderProjects this) = map item_view (assignedProjects this)
   \<and> map h2_textContent (ul (on_projects items this)) =
       map title (filter (\<lambda>prj. status prj = status_of (type_l this)) items)
   \<and> prjLists (user (the_world (run evs))) =
       [shown active (stored_projects (run evs)), shown finished (stored_projects (run evs))]"
proof -
  have titles: "h2_textContent (item_view x) = title x" for x
    by (simp add: item_view_def renderContent_def)
  have reach: "prjLists (user (the_world (run evs))) =
       [shown active (stored_projects (run evs)), shown finished (stored_projects (run evs))]"
    using app_inv_run [of evs] by (simp add: app_inv_def)
  have "map h2_textContent (ul (on_projects items this)) =
       map title (filter (\<lambda>prj. status prj = status_of (type_l this)) items)"
    by (simp only: on_projects_shown) (simp add: shown_def titles)
  with reach show ?thesis by (simp add: on_projects_shown renderProjects_eq)
qed

lemma projectState_app_wf:
  "projects projectState_app < length (arrays world_app)"
  "\<forall>f \<in> set (listeners projectState_app). cannot_reach (projects projectState_app) f"
  by (simp_all add: projectState_app_def world_app_def cannot_reach_def ProjectList_app_listener_def)

text \<open>
  C5. The list view of the earlier version neither clears its list element nor filters
  the snapshot. After the
  two calls \<open>addProject('A', 'first', 1)\<close> and \<open>addProject('B', 'second', 2)\<close>, which two
  valid submits of the form make, each of its two list elements holds \<open>A, A, B\<close>: the
  element is not cleared before the items are appended, and the \<open>finished\<close> view shows
  the two projects although both are \<open>Active\<close>. The version with the base component shows
  \<open>A, B\<close> in the \<open>active\<close> view and nothing in the \<open>finished\<close> view.
\<close>

theorem earlier_list_view_appends_unfiltered:
  "map ul_app
     (user (addProjects projectState_app
        [(Fin 5 (- 1), ''A'', ''first'', num_of_int 1), (Fin 25 (- 2), ''B'', ''second'', num_of_int 2)]
        world_app)) =
     [[''A'', ''A'', ''B''], [''A'', ''A'', ''B'']]
   \<and> map status
       (stored projectState_app (addProjects projectState_app
          [(Fin 5 (- 1), ''A'', ''first'', num_of_int 1), (Fin 25 (- 2), ''B'', ''second'', num_of_int 2)]
          world_app)) =
     [Active, Active]
   \<and> map (\<lambda>l. map h2_textContent (ul l))
       (prjLists (user (the_world (run
          [Call_addProject (Fin 5 (- 1)) ''A'' ''first'' (num_of_int 1),
           Call_addProject (Fin 25 (- 2)) ''B'' ''second'' (num_of_int 2)])))) =
     [[''A'', ''B''], []]"
proof -
  let ?calls = "[(Fin 5 (- 1), ''A'', ''first'', num_of_int 1), (Fin 25 (- 2), ''B'', ''second'', num_of_int 2)]"
  let ?evs = "[Call_addProject (Fin 5 (- 1)) ''A'' ''first'' (num_of_int 1),
           Call_addProject (Fin 25 (- 2)) ''B'' ''second'' (num_of_int 2)]"
  have old: "map ul_app (user (addProjects projectState_app ?calls world_app)) =
     [[''A'', ''A'', ''B''], [''A'', ''A'', ''B'']]"
    by (simp add: projectState_app_def world_app_def addProject_def push_def spread_def
        ProjectList_app_listener_def on_projects_app_def renderProjects_app_def newProject_def
        nth_append)
  have "stored projectState_app (addProjects projectState_app ?calls world_app) =
      stored projectState_app world_app @ map (\<lambda>(rnd, t, d, n). newProject rnd t d n) ?calls"
    by (rule addProjects_stored [OF projectState_app_wf])
  then have st: "map status (stored projectState_app (addProjects projectState_app ?calls world_app)) =
      [Active, Active]"
    by (simp add: stored_def projectState_app_def world_app_def newProject_def)
  have "run ?evs = step (step init (Call_addProject (Fin 5 (- 1)) ''A'' ''first'' (num_of_int 1)))
      (Call_addProject (Fin 25 (- 2)) ''B'' ''second'' (num_of_int 2))"
    by (simp add: run_def)
  with stored_call(1) [OF app_inv_init, of "Fin 5 (- 1)" "''A''" "''first''" "num_of_int 1"]
    stored_call(1) [OF stored_call(2) [OF app_inv_init], of "Fin 5 (- 1)" "''A''" "''first''" "num_of_int 1"
      "Fin 25 (- 2)" "''B''" "''second''" "num_of_int 2"]
  have "stored_projects (run ?evs) =
      [newProject (Fin 5 (- 1)) ''A'' ''first'' (num_of_int 1),
       newProject (Fin 25 (- 2)) ''B'' ''second'' (num_of_int 2)]"
    by (simp only: stored_projects_init append_Nil append_Cons)
  moreover have "prjLists (user (the_world (run ?evs))) =
       [shown active (stored_projects (run ?evs)), shown finished (stored_projects (run ?evs))]"
    using app_inv_run [of ?evs] by (simp only: app_inv_def)
  ultimately have new: "map (\<lambda>l. map h2_textContent (ul l)) (prjLists (user (the_world (run ?evs)))) =
     [[''A'', ''B''], []]"
    by (simp add: shown_def newProject_def item_view_def renderContent_def)
  from old st new show ?thesis by blast
qed

subsection \<open>The headcount of a project made by the form\<close>

text \<open>
  C6, as the code has it. Every project that the form has created has a headcount that is
  a number from 1 to 5, both included; it need not be an integer.
\<close>

theorem form_headcount_between_1_and_5:
  "list_all form_event evs \<Longrightarrow>
   \<forall>p \<in> set (stored_projects (run evs)).
      num_le (num_of_int 1) (people p) \<and> num_le (people p) (num_of_int 5)"
proof (induction evs rule: rev_induct)
  case Nil
  then show ?case by (simp add: run_Nil stored_projects_init)
next
  case (snoc ev evs)
  then have ih: "\<forall>p \<in> set (stored_projects (run evs)).
      num_le (num_of_int 1) (people p) \<and> num_le (people p) (num_of_int 5)"
    and fe: "form_event ev" by simp_all
  show ?case
  proof (cases ev)
    case (Submit rnd)
    show ?thesis
    proof (cases "inputs_valid (run evs)")
      case True
      from stored_submit_valid(1) [OF app_inv_run True, of rnd] inputs_valid_people [OF True] ih
      show ?thesis by (simp add: run_snoc Submit newProject_def)
    next
      case False
      from stored_submit_invalid(1) [OF False, of rnd] ih show ?thesis
        by (simp add: run_snoc Submit)
    qed
  next
    case (Call_addProject rnd t d n)
    with fe show ?thesis by simp
  qed (use ih in \<open>simp_all add: run_snoc set_input_keeps\<close>)
qed

theorem form_headcount_between_1_and_5_witness:
  "stored_projects (run [Type_title ''Build API'', Type_description ''Backend work'', Type_people ''3'',
       Submit (Fin 5 (- 1))]) =
     [newProject (Fin 5 (- 1)) ''Build API'' ''Backend work'' (num_of_int 3)]
   \<and> num_le (num_of_int 1) (people (newProject (Fin 5 (- 1)) ''Build API'' ''Backend work'' (num_of_int 3)))
   \<and> num_le (people (newProject (Fin 5 (- 1)) ''Build API'' ''Backend work'' (num_of_int 3))) (num_of_int 5)"
proof -
  let ?evs = "[Type_title ''Build API'', Type_description ''Backend work'', Type_people ''3'',
       Submit (Fin 5 (- 1))]"
  let ?p = "newProject (Fin 5 (- 1)) ''Build API'' ''Backend work'' (num_of_int 3)"
  have ok: "inputs_valid (typed ''Build API'' ''Backend work'' ''3'')"
    by (simp add: inputs_valid_typed scenario_values)
  have st: "stored_projects (run ?evs) = [?p]"
    using stored_submit_valid(1) [OF typed_state(4) ok, of "Fin 5 (- 1)"]
    by (simp only: submit_after_typing typed_state scenario_values append_Nil ProjectInput.simps)
  have "list_all form_event ?evs" by simp
  from form_headcount_between_1_and_5 [OF this] st
  have "num_le (num_of_int 1) (people ?p) \<and> num_le (people ?p) (num_of_int 5)" by simp
  with st show ?thesis by blast
qed

text \<open>The headcount \<open>2.5\<close> passes the three rules of the headcount, and the form creates a
  project with it: a headcount need not be an integer.\<close>

theorem form_headcount_integer_counterexample:
  "validate (peopleValidatable ''2.5'')
   \<and> stored_projects (run [Type_title ''T'', Type_description ''Descr'', Type_people ''2.5'',
        Submit (Fin 5 (- 1))]) =
       [\<lparr>id_p = ''0.5'', title = ''T'', description = ''Descr'', people = Fin 25 (- 1),
         status = Active\<rparr>]
   \<and> \<not> is_integer (Fin 25 (- 1))"
proof -
  have ok: "inputs_valid (typed ''T'' ''Descr'' ''2.5'')"
    by (simp add: inputs_valid_typed scenario_values)
  have id: "numToString (Fin 5 (- 1)) = ''0.5''" by code_simp
  have "stored_projects (run [Type_title ''T'', Type_description ''Descr'', Type_people ''2.5'',
        Submit (Fin 5 (- 1))]) = [newProject (Fin 5 (- 1)) ''T'' ''Descr'' (Fin 25 (- 1))]"
    using stored_submit_valid(1) [OF typed_state(4) ok, of "Fin 5 (- 1)"]
    by (simp only: submit_after_typing typed_state scenario_values append_Nil ProjectInput.simps)
  then show ?thesis by (simp add: scenario_values newProject_def id del: numToString.simps)
qed

subsection \<open>No finished project\<close>

text \<open>
  C9. In every state the program reaches, whether by the form or by calls of
  \<open>addProject\<close>, every stored project has the status \<open>Active\<close>, and the \<open>finished\<close> list
  view has no assigned project and renders no item.
\<close>

theorem finished_view_is_always_empty:
  "list_all (\<lambda>p. status p = Active) (stored_projects (run evs))
   \<and> finishedPrjList (run evs) = shown finished (stored_projects (run evs))
   \<and> assignedProjects (finishedPrjList (run evs)) = []
   \<and> ul (finishedPrjList (run evs)) = []
   \<and> type_l (finishedPrjList (run evs)) = finished"
proof -
  have act: "\<forall>p \<in> set (stored_projects (run evs)). status p = Active" by (rule all_Active_run)
  then have none: "filter (\<lambda>prj. status prj = Finished) (stored_projects (run evs)) = []"
    by (simp add: filter_empty_conv)
  have fin: "finishedPrjList (run evs) = shown finished (stored_projects (run evs))"
    using app_inv_run [of evs] by (simp add: app_inv_def finishedPrjList_def)
  from act none fin show ?thesis by (simp add: shown_def list_all_iff)
qed

subsection \<open>The stored list only grows\<close>

text \<open>
  C1. For every sequence of \<open>addProject\<close> calls, on a broadcaster whose listeners reach its
  array only through what they are handed, the stored list after the calls is the stored
  list before them followed by one new project for each call, in call order: the length
  grows by one with each call, every new project has the status \<open>Active\<close>, and the
  projects stored before are still there, unchanged and in the same places. In the program
  itself, whose listeners are those of the two list views, a call of \<open>addProject\<close> in any
  state it reaches appends exactly the new project.
\<close>

theorem addProject_appends_one_active_project:
  "(projects this < length (arrays w) \<and>
    (\<forall>f \<in> set (listeners this). cannot_reach (projects this) f) \<longrightarrow>
      stored this (addProjects this calls w) =
        stored this w @ map (\<lambda>(rnd, t, d, n). newProject rnd t d n) calls
      \<and> length (stored this (addProjects this calls w)) = length (stored this w) + length calls
      \<and> stored this (addProject this rnd t d n w) = stored this w @ [newProject rnd t d n])
   \<and> (\<forall>x \<in> set (map (\<lambda>(rnd, t, d, n). newProject rnd t d n) calls). status x = Active)
   \<and> status (newProject rnd t d n) = Active
   \<and> stored_projects (step (run evs) (Call_addProject rnd t d n)) =
       stored_projects (run evs) @ [newProject rnd t d n]"
proof -
  have general: "stored this (addProjects this calls w) =
        stored this w @ map (\<lambda>(rnd, t, d, n). newProject rnd t d n) calls
      \<and> length (stored this (addProjects this calls w)) = length (stored this w) + length calls
      \<and> stored this (addProject this rnd t d n w) = stored this w @ [newProject rnd t d n]"
    if wf: "projects this < length (arrays w)"
      and cr: "\<forall>f \<in> set (listeners this). cannot_reach (projects this) f"
  proof -
    have seq: "stored this (addProjects this calls w) =
        stored this w @ map (\<lambda>(rnd, t, d, n). newProject rnd t d n) calls"
      by (rule addProjects_stored [OF wf cr])
    have len: "length (stored this (addProjects this calls w)) = length (stored this w) + length calls"
      by (simp add: seq)
    have one: "stored this (addProject this rnd t d n w) = stored this w @ [newProject rnd t d n]"
      by (rule addProject_stored(1) [OF wf cr])
    from seq len one show ?thesis by blast
  qed
  have act: "status (newProject rnd t d n) = Active" by (simp add: newProject_def)
  have prog: "stored_projects (step (run evs) (Call_addProject rnd t d n)) =
       stored_projects (run evs) @ [newProject rnd t d n]"
    by (rule stored_call(1) [OF app_inv_run])
  from general map_newProject_Active [of calls] act prog show ?thesis by blast
qed

theorem addProject_appends_one_active_project_witness:
  "stored probe_state
     (addProjects probe_state
        [(Fin 5 (- 1), ''A'', ''first'', num_of_int 2), (Fin 25 (- 2), ''B'', ''second'', num_of_int 1)]
        probe_world) =
   [newProject (Fin 5 (- 1)) ''A'' ''first'' (num_of_int 2),
    newProject (Fin 25 (- 2)) ''B'' ''second'' (num_of_int 1)]"
proof -
  have wf: "projects probe_state < length (arrays probe_world)"
    by (simp add: probe_state_def probe_world_def)
  have st: "stored probe_state probe_world = []"
    by (simp add: stored_def probe_state_def probe_world_def)
  from addProject_appends_one_active_project
    [of probe_state probe_world
      "[(Fin 5 (- 1), ''A'', ''first'', num_of_int 2), (Fin 25 (- 2), ''B'', ''second'', num_of_int 1)]"]
    wf cannot_reach_probe
  have "stored probe_state
     (addProjects probe_state
        [(Fin 5 (- 1), ''A'', ''first'', num_of_int 2), (Fin 25 (- 2), ''B'', ''second'', num_of_int 1)]
        probe_world) =
     stored probe_state probe_world @
     map (\<lambda>(rnd, t, d, n). newProject rnd t d n)
       [(Fin 5 (- 1), ''A'', ''first'', num_of_int 2), (Fin 25 (- 2), ''B'', ''second'', num_of_int 1)]"
    by blast
  then show ?thesis by (simp only: st append_Nil list.map prod.case)
qed

end
